theory Spec2Isabelle
  imports Main "HOL-Library.Word"
begin

section \<open>Bytes, paths and errors\<close>

text \<open>
  A Python \<^verbatim>\<open>bytes\<close> object (and the read-only \<^verbatim>\<open>mmap\<close>) is a list of 8-bit words.
  Python integers are unbounded: offsets and lengths handed to \<^verbatim>\<open>_extract_one\<close> are
  \<open>int\<close>; values decoded from the little-endian fields are \<open>nat\<close>.
\<close>

type_synonym byte = "8 word"
type_synonym bytes = "byte list"
type_synonym path = string

text \<open>
  Every \<^verbatim>\<open>raise\<close> of the source is a constructor. All but the last are
  \<^verbatim>\<open>ValueError\<close> with the message given; \<open>StructError\<close> is \<^verbatim>\<open>struct.error\<close>, which
  \<^verbatim>\<open>struct\<close> raises for a value outside a field's range or a buffer that is too short.
\<close>

datatype error =
    FileTooSmall            \<comment> \<open>"File too small for S3P header"\<close>
  | BadMagicS3P             \<comment> \<open>"Bad magic! Expected S3P0"\<close>
  | EntryTableExceeds       \<comment> \<open>"Entry table exceeds file bounds"\<close>
  | EntryOutsideBounds      \<comment> \<open>"Entry points outside file bounds"\<close>
  | BadMagicS3V bytes       \<comment> \<open>"Bad magic! Need S3V0 got ..." with the bytes found\<close>
  | InvalidFilestart        \<comment> \<open>"Invalid filestart in S3V0 header"\<close>
  | FileTooLarge path       \<comment> \<open>"File too large for S3V0 length field: ..." with the path\<close>
  | ArchiveExceeds          \<comment> \<open>"Archive exceeds 32-bit offset/length limits"\<close>
  | StructError             \<comment> \<open>\<^verbatim>\<open>struct.error\<close>\<close>

text \<open>
  The requests the program makes to the file system, in the order it makes them.
  \<open>Mkdir\<close> is \<^verbatim>\<open>mkdir(exist_ok=True)\<close>, \<open>MkdirParents\<close> is
  \<^verbatim>\<open>mkdir(parents=True, exist_ok=True)\<close>, \<open>WriteFile\<close> is opening a file with mode
  \<^verbatim>\<open>"wb"\<close> and writing the bytes. Failures of the operating system itself (permissions,
  a full disk) are outside the model.
\<close>

datatype fs_op =
    Mkdir path
  | MkdirParents path
  | WriteFile path bytes

text \<open>What a procedure did and how it ended: \<open>None\<close> is a normal return.\<close>

type_synonym outcome = "fs_op list \<times> error option"

section \<open>Constants and struct layouts\<close>

definition S3P_MAGIC :: bytes where
  "S3P_MAGIC = [0x53, 0x33, 0x50, 0x30]"  \<comment> \<open>\<^verbatim>\<open>b"S3P0"\<close>\<close>

definition S3V_MAGIC :: bytes where
  "S3V_MAGIC = [0x53, 0x33, 0x56, 0x30]"  \<comment> \<open>\<^verbatim>\<open>b"S3V0"\<close>\<close>

definition END_MARKER :: int where
  "END_MARKER = 0x12345678"

definition HEADER_size :: nat where   \<comment> \<open>\<^verbatim>\<open>struct.Struct("<4sI").size\<close>\<close>
  "HEADER_size = 8"

definition ENTRY_size :: nat where    \<comment> \<open>\<^verbatim>\<open>struct.Struct("<II").size\<close>\<close>
  "ENTRY_size = 8"

definition S3V0_size :: nat where     \<comment> \<open>\<^verbatim>\<open>struct.Struct("<4sII20s").size\<close>\<close>
  "S3V0_size = 32"

subsection \<open>Little-endian unsigned 32-bit fields\<close>

definition u32_max :: int where
  "u32_max = 0xFFFFFFFF"

text \<open>Format \<^verbatim>\<open><I\<close>: packing raises \<^verbatim>\<open>struct.error\<close> outside \<open>0..0xFFFFFFFF\<close>.\<close>

definition le32 :: "nat \<Rightarrow> bytes" where
  "le32 n = [of_nat n, of_nat (n div 256), of_nat (n div 65536), of_nat (n div 16777216)]"

definition pack_I :: "int \<Rightarrow> error + bytes" where
  "pack_I v = (if v < 0 \<or> u32_max < v then Inl StructError else Inr (le32 (nat v)))"

text \<open>Reading a \<^verbatim>\<open><I\<close> field from exactly four bytes.\<close>

definition unpack_I :: "bytes \<Rightarrow> nat" where
  "unpack_I bs = unat (bs ! 0) + 256 * unat (bs ! 1) + 65536 * unat (bs ! 2)
                   + 16777216 * unat (bs ! 3)"

text \<open>Format \<^verbatim>\<open>4s\<close> / \<^verbatim>\<open>20s\<close>: a byte string is cut or padded with zeros to the width.\<close>

definition pack_s :: "nat \<Rightarrow> bytes \<Rightarrow> bytes" where
  "pack_s w bs = take w bs @ replicate (w - length bs) 0"

subsection \<open>Python slices and buffer windows\<close>

text \<open>\<^verbatim>\<open>buf[s:e]\<close>: negative indices count from the end, both ends are clamped.\<close>

definition clamp_index :: "nat \<Rightarrow> int \<Rightarrow> nat" where
  "clamp_index n i = (if i < 0 then nat (max 0 (int n + i)) else min (nat i) n)"

definition py_slice :: "bytes \<Rightarrow> int \<Rightarrow> int \<Rightarrow> bytes" where
  "py_slice buf s e =
     (let s' = clamp_index (length buf) s; e' = clamp_index (length buf) e
      in take (e' - s') (drop s' buf))"

text \<open>
  The window \<^verbatim>\<open>unpack_from(buf, offset)\<close> reads for a struct of \<open>sz\<close> bytes. A negative
  offset counts from the end; a window that does not fit raises \<^verbatim>\<open>struct.error\<close>.
\<close>

definition window :: "nat \<Rightarrow> bytes \<Rightarrow> int \<Rightarrow> error + bytes" where
  "window sz buf offset =
     (if offset < 0 then
        (if offset + int sz > 0 then Inl StructError
         else if offset + int (length buf) < 0 then Inl StructError
         else Inr (take sz (drop (nat (offset + int (length buf))) buf)))
      else if int (length buf) - offset < int sz then Inl StructError
      else Inr (take sz (drop (nat offset) buf)))"

definition HEADER_unpack_from :: "bytes \<Rightarrow> int \<Rightarrow> error + (bytes \<times> nat)" where
  "HEADER_unpack_from buf offset =
     (case window HEADER_size buf offset of
        Inl e \<Rightarrow> Inl e
      | Inr w \<Rightarrow> Inr (take 4 w, unpack_I (drop 4 w)))"

definition S3V0_unpack_from :: "bytes \<Rightarrow> int \<Rightarrow> error + (bytes \<times> nat \<times> nat \<times> bytes)" where
  "S3V0_unpack_from buf offset =
     (case window S3V0_size buf offset of
        Inl e \<Rightarrow> Inl e
      | Inr w \<Rightarrow> Inr (take 4 w, unpack_I (drop 4 w), unpack_I (drop 8 w), drop 12 w))"

text \<open>
  \<^verbatim>\<open>ENTRY_STRUCT.iter_unpack(buf)\<close>: the buffer must be a whole number of 8-byte rows,
  each row is two \<^verbatim>\<open><I\<close> fields.
\<close>

fun ENTRY_rows :: "nat \<Rightarrow> bytes \<Rightarrow> (nat \<times> nat) list" where
  "ENTRY_rows 0 buf = []"
| "ENTRY_rows (Suc k) buf =
     (unpack_I (take 4 buf), unpack_I (take 4 (drop 4 buf))) # ENTRY_rows k (drop 8 buf)"

definition ENTRY_iter_unpack :: "bytes \<Rightarrow> error + (nat \<times> nat) list" where
  "ENTRY_iter_unpack buf =
     (if length buf mod ENTRY_size \<noteq> 0 then Inl StructError
      else Inr (ENTRY_rows (length buf div ENTRY_size) buf))"

section \<open>Paths and output names\<close>

text \<open>
  Paths are the strings \<^verbatim>\<open>pathlib\<close> prints, taken as already normalised.
  \<open>joinpath d n\<close> is \<^verbatim>\<open>d / n\<close> for a relative name \<open>n\<close>; \<open>parent\<close> drops the last
  component.
\<close>

definition joinpath :: "path \<Rightarrow> string \<Rightarrow> path" where
  "joinpath d n = d @ ''/'' @ n"

definition parent :: "path \<Rightarrow> path" where
  "parent p =
     (if CHR ''/'' \<notin> set p then ''.''
      else let d = rev (tl (dropWhile (\<lambda>c. c \<noteq> CHR ''/'') (rev p)))
           in if d = [] then ''/'' else d)"

definition digit_char :: "nat \<Rightarrow> char" where
  "digit_char d = char_of (48 + d)"

text \<open>The decimal digits of a number, as \<^verbatim>\<open>str(i)\<close> prints them.\<close>

fun decimal :: "nat \<Rightarrow> string" where
  "decimal n = (if n < 10 then [digit_char n] else decimal (n div 10) @ [digit_char (n mod 10)])"

declare decimal.simps [simp del]

text \<open>\<^verbatim>\<open>f"{i:04d}"\<close>: at least four digits, padded with zeros on the left.\<close>

definition fmt04d :: "nat \<Rightarrow> string" where
  "fmt04d i = replicate (4 - length (decimal i)) (CHR ''0'') @ decimal i"



section \<open>The extractor\<close>

definition extract_one :: "bytes \<Rightarrow> int \<Rightarrow> int \<Rightarrow> path \<Rightarrow> outcome" where
  "extract_one mm offset length' out_file =
     (if offset < 0 \<or> length' < int S3V0_size \<or> offset + length' > int (length mm)
      then ([], Some EntryOutsideBounds)
      else case S3V0_unpack_from mm offset of
        Inl e \<Rightarrow> ([], Some e)
      | Inr (magic, filestart, payload_len, unknown) \<Rightarrow>
          if magic \<noteq> S3V_MAGIC
          then ([], Some (BadMagicS3V (py_slice mm offset (offset + 4))))
          else let data_start = offset + int filestart;
                   data_end = offset + length'
               in if data_start > data_end then ([], Some InvalidFilestart)
                  else ([MkdirParents (parent out_file),
                         WriteFile out_file (py_slice mm data_start data_end)], None))"

text \<open>
  The loop of \<^verbatim>\<open>convert\<close> over the rows of the entry table, numbered from \<open>i\<close>; the
  first entry that raises ends the loop.
\<close>

fun extract_entries :: "bytes \<Rightarrow> path \<Rightarrow> nat \<Rightarrow> (nat \<times> nat) list \<Rightarrow> outcome" where
  "extract_entries mm out_dir i [] = ([], None)"
| "extract_entries mm out_dir i ((offset, length') # rest) =
     (let out_file = joinpath out_dir (fmt04d i @ ''.wav'')
      in case extract_one mm (int offset) (int length') out_file of
           (ops, Some e) \<Rightarrow> (ops, Some e)
         | (ops, None) \<Rightarrow>
             (case extract_entries mm out_dir (Suc i) rest of
                (ops', r) \<Rightarrow> (ops @ ops', r)))"

text \<open>
  \<^verbatim>\<open>convert(path)\<close> on an archive file holding \<open>file_bytes\<close>; the mapped file \<open>mm\<close> is
  those bytes. The output directory is made before anything is checked. What is printed
  (the path, the progress) is not part of the model.
\<close>

definition convert :: "path \<Rightarrow> bytes \<Rightarrow> outcome" where
  "convert path file_bytes =
     (let out_dir = path @ ''.out'';
          made = [Mkdir out_dir];
          file_size = length file_bytes
      in if file_size < HEADER_size then (made, Some FileTooSmall)
         else (let mm = file_bytes
               in (case HEADER_unpack_from mm 0 of
                     Inl e \<Rightarrow> (made, Some e)
                   | Inr (magic, entries_count) \<Rightarrow>
                       (if magic \<noteq> S3P_MAGIC then (made, Some BadMagicS3P)
                        else (let entries_table_end = HEADER_size + entries_count * ENTRY_size
                              in (if entries_table_end > length mm
                                  then (made, Some EntryTableExceeds)
                                  else (let entries_region =
                                              py_slice mm (int HEADER_size)
                                                (int entries_table_end)
                                        in (case ENTRY_iter_unpack entries_region of
                                              Inl e \<Rightarrow> (made, Some e)
                                            | Inr entries \<Rightarrow>
                                                (case extract_entries mm out_dir 1 entries of
                                                   (ops, r) \<Rightarrow> (made @ ops, r))))))))))"

text \<open>The files an outcome wrote, in the order they were written.\<close>

fun written :: "fs_op list \<Rightarrow> (path \<times> bytes) list" where
  "written [] = []"
| "written (WriteFile p bs # ops) = (p, bs) # written ops"
| "written (_ # ops) = written ops"

section \<open>The packer\<close>

text \<open>
  An input file as the packer sees it: its path, the size \<^verbatim>\<open>stat()\<close> reports and the bytes
  reading it yields. For a regular file that nobody changes meanwhile, \<open>st_size\<close> is the
  number of bytes.
\<close>

record src_file =
  src_path :: path
  st_size :: int
  content :: bytes

text \<open>
  The output file, opened \<^verbatim>\<open>"wb"\<close> without buffering: its bytes and the position of the
  descriptor, which \<^verbatim>\<open>write\<close>, \<^verbatim>\<open>os.write\<close> and \<^verbatim>\<open>os.sendfile\<close> all advance. Writing
  overwrites what is under the position and extends the file; a gap left by seeking past
  the end reads as zeros.
\<close>

record out_file =
  data :: bytes
  pos :: nat

definition out_write :: "out_file \<Rightarrow> bytes \<Rightarrow> out_file" where
  "out_write f bs =
     \<lparr>data = take (pos f) (data f) @ replicate (pos f - length (data f)) 0 @ bs
               @ drop (pos f + length bs) (data f),
      pos = pos f + length bs\<rparr>"

definition out_tell :: "out_file \<Rightarrow> int" where
  "out_tell f = int (pos f)"

definition out_seek :: "out_file \<Rightarrow> nat \<Rightarrow> out_file" where
  "out_seek f n = f\<lparr>pos := n\<rparr>"

subsection \<open>Packing structs\<close>

definition HEADER_pack :: "bytes \<Rightarrow> int \<Rightarrow> error + bytes" where
  "HEADER_pack magic n =
     (case pack_I n of Inl e \<Rightarrow> Inl e | Inr bn \<Rightarrow> Inr (pack_s 4 magic @ bn))"

definition S3V0_pack :: "bytes \<Rightarrow> int \<Rightarrow> int \<Rightarrow> bytes \<Rightarrow> error + bytes" where
  "S3V0_pack magic filestart payload_len unknown =
     (case pack_I filestart of
        Inl e \<Rightarrow> Inl e
      | Inr bf \<Rightarrow>
          (case pack_I payload_len of
             Inl e \<Rightarrow> Inl e
           | Inr bl \<Rightarrow> Inr (pack_s 4 magic @ bf @ bl @ pack_s 20 unknown)))"

text \<open>
  \<^verbatim>\<open>ENTRY_STRUCT.pack_into(buf, offset, a, b)\<close> for an offset that is not negative: the
  eight bytes at \<open>offset\<close> are replaced; a buffer too short for them raises.
\<close>

definition ENTRY_pack_into :: "bytes \<Rightarrow> nat \<Rightarrow> int \<Rightarrow> int \<Rightarrow> error + bytes" where
  "ENTRY_pack_into buf offset a b =
     (if length buf < offset + ENTRY_size then Inl StructError
      else case pack_I a of
        Inl e \<Rightarrow> Inl e
      | Inr ba \<Rightarrow>
          (case pack_I b of
             Inl e \<Rightarrow> Inl e
           | Inr bb \<Rightarrow> Inr (take offset buf @ ba @ bb @ drop (offset + ENTRY_size) buf)))"

subsection \<open>Copying a file\<close>

definition chunk_size :: nat where
  "chunk_size = 4 * 1024 * 1024"

text \<open>
  The loop over \<^verbatim>\<open>os.sendfile\<close>. \<open>src\<close> is the whole source file, \<open>sent_total\<close> the offset
  passed to the call; a call transfers the bytes the file has from that offset, at most the
  count asked for, and returns how many. The result is the bytes that reached the
  destination and the final \<open>sent_total\<close>. The \<^verbatim>\<open>OSError\<close> branch is outside the model.
\<close>

function sendfile_loop :: "bytes \<Rightarrow> nat \<Rightarrow> nat \<Rightarrow> bytes \<times> nat" where
  "sendfile_loop src sz sent_total =
     (if sent_total < sz then
        (let chunk = take (sz - sent_total) (drop sent_total src);
             sent = length chunk
         in if sent = 0 then ([], sent_total)
            else (case sendfile_loop src sz (sent_total + sent) of
                    (later, sent_end) \<Rightarrow> (chunk @ later, sent_end)))
      else ([], sent_total))"
  by pat_completeness auto
termination
  by (relation "measure (\<lambda>(src, sz, sent_total). sz - sent_total)") auto

declare sendfile_loop.simps [simp del]

text \<open>
  The loop over \<^verbatim>\<open>os.read\<close> and \<^verbatim>\<open>os.write\<close>. \<open>src\<close> is what the source has from the
  position of its descriptor on; the result is the bytes written.
\<close>

function read_write_loop :: "bytes \<Rightarrow> nat \<Rightarrow> bytes" where
  "read_write_loop src remaining =
     (if remaining = 0 then []
      else (let chunk = take (min chunk_size remaining) src
            in if chunk = [] then []
               else chunk @ read_write_loop (drop (length chunk) src)
                                            (remaining - length chunk)))"
  by pat_completeness auto
termination
  by (relation "measure (\<lambda>(src, remaining). remaining)") (auto simp: chunk_size_def)

declare read_write_loop.simps [simp del]

text \<open>
  \<^verbatim>\<open>_copy_file_fast\<close>: the bytes it appends to the destination. \<open>has_sendfile\<close> is
  \<^verbatim>\<open>hasattr(os, "sendfile")\<close>. After an incomplete \<^verbatim>\<open>sendfile\<close> loop the source is
  positioned at \<open>sent_total\<close> and the second loop starts again with \<open>remaining = size\<close>.
\<close>

definition copy_file_fast :: "bool \<Rightarrow> bytes \<Rightarrow> int \<Rightarrow> bytes" where
  "copy_file_fast has_sendfile src sz =
     (if sz \<le> 0 then []
      else if has_sendfile then
        (case sendfile_loop src (nat sz) 0 of
           (sent_bytes, sent_total) \<Rightarrow>
             if sent_total = nat sz then sent_bytes
             else sent_bytes @ read_write_loop (drop sent_total src) (nat sz))
      else read_write_loop src (nat sz))"

subsection \<open>The archive\<close>

text \<open>
  The loop of \<^verbatim>\<open>pack\<close> over the input files. A failure returns the error and the output
  file as it stands at the \<^verbatim>\<open>raise\<close>.
\<close>

fun pack_files ::
  "bool \<Rightarrow> src_file list \<Rightarrow> out_file \<Rightarrow> (int \<times> int) list
     \<Rightarrow> (error \<times> out_file) + (out_file \<times> (int \<times> int) list)" where
  "pack_files sf [] out_f entries = Inr (out_f, entries)"
| "pack_files sf (src # rest) out_f entries =
     (let src_size = st_size src
      in if src_size > 0xFFFFFFFF then Inl (FileTooLarge (src_path src), out_f)
         else let offset = out_tell out_f
              in case S3V0_pack S3V_MAGIC 0x20 src_size (replicate 20 0) of
                   Inl e \<Rightarrow> Inl (e, out_f)
                 | Inr hdr \<Rightarrow>
                     (let out1 = out_write out_f hdr;
                          out2 = out_write out1 (copy_file_fast sf (content src) src_size);
                          end_pos = out_tell out2;
                          length' = end_pos - offset
                      in if offset > 0xFFFFFFFF \<or> length' > 0xFFFFFFFF
                         then Inl (ArchiveExceeds, out2)
                         else pack_files sf rest out2 (entries @ [(offset, length')])))"

text \<open>The loop that fills the entry table, row \<open>i\<close> first.\<close>

fun pack_table :: "bytes \<Rightarrow> nat \<Rightarrow> (int \<times> int) list \<Rightarrow> error + bytes" where
  "pack_table table i [] = Inr table"
| "pack_table table i ((off, ln) # rest) =
     (case ENTRY_pack_into table (i * ENTRY_size) off ln of
        Inl e \<Rightarrow> Inl e
      | Inr table' \<Rightarrow> pack_table table' (Suc i) rest)"

text \<open>
  \<^verbatim>\<open>pack(infiles, out_filename)\<close>: the bytes of the archive, or the error raised and the
  bytes the output file is left with.
\<close>

datatype pack_result = Packed bytes | PackFailed error bytes

definition pack :: "bool \<Rightarrow> src_file list \<Rightarrow> pack_result" where
  "pack sf infiles =
     (let infile_count = length infiles;
          out0 = \<lparr>data = [], pos = 0\<rparr>
      in case HEADER_pack S3P_MAGIC (int infile_count) of
           Inl e \<Rightarrow> PackFailed e (data out0)
         | Inr hdr \<Rightarrow>
             (let out1 = out_write out0 hdr;
                  out2 = out_write out1 (replicate (ENTRY_size * infile_count) 0)
              in case pack_files sf infiles out2 [] of
                   Inl (e, out_e) \<Rightarrow> PackFailed e (data out_e)
                 | Inr (out3, entries) \<Rightarrow>
                     (case pack_I END_MARKER of
                        Inl e \<Rightarrow> PackFailed e (data out3)
                      | Inr marker \<Rightarrow>
                          (let out4 = out_write out3 marker;
                               out5 = out_seek out4 HEADER_size;
                               table = replicate (ENTRY_size * infile_count) 0
                           in case pack_table table 0 entries of
                                Inl e \<Rightarrow> PackFailed e (data out5)
                              | Inr table' \<Rightarrow> Packed (data (out_write out5 table'))))))"

section \<open>The layout of a packed archive\<close>

text \<open>
  Auxiliary functions for the proofs about \<open>pack\<close>: the bytes of the record written for
  one input file, and the rows (offset, length) of the records of a list of files laid out
  one after the other from position \<open>base\<close>.
\<close>

definition copied :: "src_file \<Rightarrow> bytes" where
  "copied f = take (nat (st_size f)) (content f)"

definition record_bytes :: "src_file \<Rightarrow> bytes" where
  "record_bytes f =
     S3V_MAGIC @ le32 32 @ le32 (nat (st_size f)) @ replicate 20 0 @ copied f"

fun layout :: "nat \<Rightarrow> src_file list \<Rightarrow> (nat \<times> nat) list" where
  "layout base [] = []"
| "layout base (f # fs) =
     (base, 32 + length (copied f)) # layout (base + (32 + length (copied f))) fs"

definition row_bytes :: "nat \<times> nat \<Rightarrow> bytes" where
  "row_bytes r = le32 (fst r) @ le32 (snd r)"

text \<open>The names \<^verbatim>\<open>convert\<close> gives to entries \<open>i\<close>, \<open>i + 1\<close>, ... of an archive at \<open>path\<close>.\<close>

definition out_names :: "path \<Rightarrow> nat \<Rightarrow> nat \<Rightarrow> path list" where
  "out_names path i n = map (\<lambda>j. joinpath (path @ ''.out'') (fmt04d j @ ''.wav'')) [i..<i + n]"

section \<open>Sample records\<close>

text \<open>A record with the header size the packer writes, and one with a longer header.\<close>

definition sample_record :: bytes where
  "sample_record = S3V_MAGIC @ le32 32 @ le32 3 @ replicate 20 0 @ [10, 20, 30]"

definition wide_record :: bytes where
  "wide_record = S3V_MAGIC @ le32 36 @ le32 2 @ replicate 20 0 @ [1, 2, 3, 4, 5, 6]"

text \<open>A record with a foreign tag, and a bare header whose \<open>header_size\<close> field is 0.\<close>

definition bad_record :: bytes where
  "bad_record = [0x52, 0x49, 0x46, 0x46] @ le32 32 @ le32 3 @ replicate 20 0 @ [10, 20, 30]"

definition bare_record :: bytes where
  "bare_record = S3V_MAGIC @ le32 0 @ le32 0 @ replicate 20 0"

text \<open>Two input files, the archive \<open>pack\<close> makes of them, and the archive of no files.\<close>

definition a_bin :: src_file where
  "a_bin = \<lparr>src_path = ''a.bin'', st_size = 3, content = [1, 2, 3]\<rparr>"

definition b_bin :: src_file where
  "b_bin = \<lparr>src_path = ''b.bin'', st_size = 5, content = [4, 5, 6, 7, 8]\<rparr>"

definition out_s3p :: bytes where
  "out_s3p = [0x53, 0x33, 0x50, 0x30, 2, 0, 0, 0,
              24, 0, 0, 0, 35, 0, 0, 0,
              59, 0, 0, 0, 37, 0, 0, 0]
     @ ([0x53, 0x33, 0x56, 0x30, 32, 0, 0, 0, 3, 0, 0, 0] @ replicate 20 0 @ [1, 2, 3])
     @ ([0x53, 0x33, 0x56, 0x30, 32, 0, 0, 0, 5, 0, 0, 0] @ replicate 20 0 @ [4, 5, 6, 7, 8])
     @ [0x78, 0x56, 0x34, 0x12]"

definition empty_s3p :: bytes where
  "empty_s3p = [0x53, 0x33, 0x50, 0x30, 0, 0, 0, 0, 0x78, 0x56, 0x34, 0x12]"

text \<open>A file reported as 4 GiB, and what \<open>pack\<close> leaves when it comes second.\<close>

definition big_bin :: src_file where
  "big_bin = \<lparr>src_path = ''big.bin'', st_size = 4294967296, content = []\<rparr>"

definition partial_s3p :: bytes where
  "partial_s3p = [0x53, 0x33, 0x50, 0x30, 2, 0, 0, 0] @ replicate 16 0
     @ ([0x53, 0x33, 0x56, 0x30, 32, 0, 0, 0, 3, 0, 0, 0] @ replicate 20 0 @ [1, 2, 3])"



definition huge_bin :: src_file where
  "huge_bin = \<lparr>src_path = ''huge.bin'', st_size = 4294967295,
               content = replicate 4294967295 0\<rparr>"

section \<open>The struct codec\<close>

lemma unpack_I_prefix: "unpack_I (take 4 xs) = unpack_I xs"
  by (simp add: unpack_I_def)

lemma unpack_I_take: "4 \<le> k \<Longrightarrow> unpack_I (take k xs) = unpack_I xs"
  by (simp add: unpack_I_def)

lemma window_inside:
  "0 \<le> offset \<Longrightarrow> offset + int sz \<le> int (length buf) \<Longrightarrow>
   window sz buf offset = Inr (take sz (drop (nat offset) buf))"
  by (simp add: window_def)

lemma py_slice_inside:
  "0 \<le> s \<Longrightarrow> s \<le> e \<Longrightarrow> e \<le> int (length buf) \<Longrightarrow>
   py_slice buf s e = take (nat e - nat s) (drop (nat s) buf)"
proof -
  assume a: "0 \<le> s" "s \<le> e" "e \<le> int (length buf)"
  then have "nat s \<le> length buf" "nat e \<le> length buf" by linarith+
  with a show ?thesis by (simp add: py_slice_def clamp_index_def Let_def min_def)
qed

lemma take_drop_range:
  "e \<le> length xs \<Longrightarrow> take (e - s) (drop s xs) = map ((!) xs) [s..<e]"
  by (rule nth_equalityI) auto

lemma S3V0_unpack_inside:
  assumes "0 \<le> offset" "offset + 32 \<le> int (length mm)"
  shows "S3V0_unpack_from mm offset =
           Inr (take 4 (drop (nat offset) mm),
                unpack_I (drop (nat offset + 4) mm),
                unpack_I (drop (nat offset + 8) mm),
                take 20 (drop (nat offset + 12) mm))"
proof -
  have w: "window S3V0_size mm offset = Inr (take 32 (drop (nat offset) mm))"
    using assms by (simp add: window_inside S3V0_size_def)
  show ?thesis
    unfolding S3V0_unpack_from_def w
    by (simp add: drop_take unpack_I_take add.commute)
qed

lemma extract_one_inside:
  assumes "0 \<le> offset" "32 \<le> length'" "offset + length' \<le> int (length mm)"
  shows "extract_one mm offset length' out_file =
     (if take 4 (drop (nat offset) mm) \<noteq> S3V_MAGIC
      then ([], Some (BadMagicS3V (take 4 (drop (nat offset) mm))))
      else if int (unpack_I (drop (nat offset + 4) mm)) > length' then ([], Some InvalidFilestart)
      else ([MkdirParents (parent out_file),
             WriteFile out_file
               (take (nat length' - unpack_I (drop (nat offset + 4) mm))
                  (drop (nat offset + unpack_I (drop (nat offset + 4) mm)) mm))], None))"
proof -
  have u: "S3V0_unpack_from mm offset =
           Inr (take 4 (drop (nat offset) mm),
                unpack_I (drop (nat offset + 4) mm),
                unpack_I (drop (nat offset + 8) mm),
                take 20 (drop (nat offset + 12) mm))"
    using assms by (intro S3V0_unpack_inside) auto
  have g: "py_slice mm offset (offset + 4) = take 4 (drop (nat offset) mm)"
    using assms by (subst py_slice_inside) (auto simp: nat_add_distrib)
  have d: "int h \<le> length' \<Longrightarrow>
      py_slice mm (offset + int h) (offset + length') =
      take (nat length' - h) (drop (nat offset + h) mm)" for h
    using assms by (subst py_slice_inside) (auto simp: nat_add_distrib)
  show ?thesis
    using assms by (simp add: extract_one_def u g d S3V0_size_def Let_def)
qed

lemma extract_one_outside:
  "offset < 0 \<or> length' < 32 \<or> offset + length' > int (length mm) \<Longrightarrow>
   extract_one mm offset length' out_file = ([], Some EntryOutsideBounds)"
  by (auto simp add: extract_one_def S3V0_size_def)

text \<open>
  C2. An entry whose length is below the 32-byte record header, whose \<open>offset + length\<close>
  exceeds the size of the mapped archive, or whose offset is negative is rejected with
  "Entry points outside file bounds". Nothing past the end of the archive is read: the
  struct never reports a window that does not fit, an entry that passes the check has its
  32-byte header inside the archive, and the bytes written are those at the indices of a
  range \<open>[s, e)\<close> with \<open>e\<close> at most the archive size.
\<close>

theorem extract_one_bounds_check:
  "(offset < 0 \<or> length' < 32 \<or> offset + length' > int (length mm) \<longrightarrow>
      extract_one mm offset length' out_file = ([], Some EntryOutsideBounds))
   \<and> snd (extract_one mm offset length' out_file) \<noteq> Some StructError
   \<and> (snd (extract_one mm offset length' out_file) \<noteq> Some EntryOutsideBounds \<longrightarrow>
        0 \<le> offset \<and> offset + 32 \<le> int (length mm) \<and>
        S3V0_unpack_from mm offset \<noteq> Inl StructError)
   \<and> (\<forall>ops. extract_one mm offset length' out_file = (ops, None) \<longrightarrow>
        (\<exists>s e. s \<le> e \<and> e \<le> length mm \<and>
           ops = [MkdirParents (parent out_file),
                  WriteFile out_file (map ((!) mm) [s..<e])]))"
proof (cases "offset < 0 \<or> length' < 32 \<or> offset + length' > int (length mm)")
  case True
  then show ?thesis by (simp add: extract_one_outside)
next
  case False
  then have b: "0 \<le> offset" "32 \<le> length'" "offset + length' \<le> int (length mm)"
    by auto
  let ?h = "unpack_I (drop (nat offset + 4) mm)"
  have r: "int ?h \<le> length' \<Longrightarrow>
      take (nat length' - ?h) (drop (nat offset + ?h) mm) =
      map ((!) mm) [nat offset + ?h ..< nat offset + nat length']"
    using b by (subst take_drop_range [symmetric]) (auto intro: arg_cong2 [where f = take])
  have u: "S3V0_unpack_from mm offset \<noteq> Inl StructError"
    using b by (subst S3V0_unpack_inside) auto
  have rng: "int ?h \<le> length' \<Longrightarrow>
      nat offset + ?h \<le> nat offset + nat length' \<and> nat offset + nat length' \<le> length mm"
    using b by linarith
  have ok: "\<exists>s e. s \<le> e \<and> e \<le> length mm \<and>
      take (nat length' - ?h) (drop (nat offset + ?h) mm) = map ((!) mm) [s..<e]"
    if "int ?h \<le> length'"
    using r [OF that] rng [OF that] by blast
  show ?thesis
    using b u ok unfolding extract_one_inside [OF b]
    by (auto simp: not_less)
qed

lemma sample_len: "length sample_record = 35"
  by (simp add: sample_record_def S3V_MAGIC_def le32_def)

theorem extract_one_bounds_check_witness:
  "0 + 36 > int (length sample_record)
   \<and> extract_one sample_record 0 36 ''a.s3p.out/0001.wav'' = ([], Some EntryOutsideBounds)
   \<and> extract_one sample_record 0 35 ''a.s3p.out/0001.wav''
       = ([MkdirParents ''a.s3p.out'', WriteFile ''a.s3p.out/0001.wav'' [10, 20, 30]], None)
"
proof -
  have v: "extract_one sample_record 0 35 ''a.s3p.out/0001.wav''
       = ([MkdirParents ''a.s3p.out'', WriteFile ''a.s3p.out/0001.wav'' [10, 20, 30]], None)"
    by (simp add: extract_one_def S3V0_unpack_from_def window_def py_slice_def clamp_index_def
        sample_record_def S3V_MAGIC_def le32_def S3V0_size_def unpack_I_def parent_def)
  show ?thesis
    using extract_one_bounds_check [of 0 36 sample_record "''a.s3p.out/0001.wav''"]
      extract_one_bounds_check [of 0 35 sample_record "''a.s3p.out/0001.wav''"] v
    by (simp add: sample_len)
qed

text \<open>
  C3. For a record inside the archive that carries the tag \<^verbatim>\<open>S3V0\<close>, the extractor takes
  the start of the payload from the \<open>header_size\<close> field stored at bytes 4..7 of the
  record, fails with "Invalid filestart in S3V0 header" exactly when
  \<open>offset + header_size\<close> is beyond \<open>offset + length\<close>, and otherwise writes the bytes at
  the indices \<open>[data_start, data_end)\<close> to the output file.
\<close>

theorem extract_one_payload_slice:
  assumes "0 \<le> offset" and "32 \<le> length'" and "offset + length' \<le> int (length mm)"
    and "take 4 (drop (nat offset) mm) = S3V_MAGIC"
  shows "extract_one mm offset length' out_file =
     (let header_size = unpack_I (take 4 (drop (nat offset + 4) mm));
          data_start = nat offset + header_size;
          data_end = nat offset + nat length'
      in if data_start > data_end then ([], Some InvalidFilestart)
         else ([MkdirParents (parent out_file),
                WriteFile out_file (map ((!) mm) [data_start..<data_end])], None))"
proof -
  let ?h = "unpack_I (drop (nat offset + 4) mm)"
  have r: "take (nat length' - ?h) (drop (nat offset + ?h) mm) =
      map ((!) mm) [nat offset + ?h ..< nat offset + nat length']"
    if "int ?h \<le> length'"
    using assms that
    by (subst take_drop_range [symmetric]) (auto intro: arg_cong2 [where f = take])
  show ?thesis
    using assms r unfolding extract_one_inside [OF assms(1-3)]
    by (auto simp: Let_def unpack_I_prefix not_less)
qed

theorem extract_one_payload_slice_witness:
  "(0::int) \<le> 0 \<and> (32::int) \<le> 38 \<and> 0 + 38 \<le> int (length wide_record)
   \<and> take 4 (drop (nat 0) wide_record) = S3V_MAGIC
   \<and> unpack_I (take 4 (drop (nat 0 + 4) wide_record)) = 36
   \<and> extract_one wide_record 0 38 ''a.s3p.out/0001.wav''
       = ([MkdirParents (parent ''a.s3p.out/0001.wav''),
           WriteFile ''a.s3p.out/0001.wav'' [5, 6]], None)
   \<and> extract_one wide_record 0 35 ''a.s3p.out/0001.wav'' = ([], Some InvalidFilestart)"
proof -
  have l: "length wide_record = 38"
    by (simp add: wide_record_def S3V_MAGIC_def le32_def)
  have m: "take 4 wide_record = S3V_MAGIC"
    by (simp add: wide_record_def S3V_MAGIC_def)
  have h: "unpack_I (take 4 (drop 4 wide_record)) = 36"
    by (simp add: wide_record_def S3V_MAGIC_def le32_def unpack_I_def)
  have u: "[36..<38] = [36, 37::nat]" "[36..<35] = ([]::nat list)"
    by (simp_all add: upt_rec)
  have n: "wide_record ! 36 = 5" "wide_record ! 37 = 6"
    by (simp_all add: wide_record_def S3V_MAGIC_def le32_def nth_append)
  show ?thesis
    using extract_one_payload_slice [of 0 38 wide_record "''a.s3p.out/0001.wav''"]
      extract_one_payload_slice [of 0 35 wide_record "''a.s3p.out/0001.wav''"]
    by (simp add: l m h u n)
qed

text \<open>
  C5. A record inside the archive whose first four bytes are not \<^verbatim>\<open>S3V0\<close> is rejected
  with the bad-magic error, which carries those four bytes; and the bad-magic error is only
  ever raised for an entry that has passed the bounds check.
\<close>

theorem extract_one_bad_magic:
  "(0 \<le> offset \<and> 32 \<le> length' \<and> offset + length' \<le> int (length mm)
      \<and> take 4 (drop (nat offset) mm) \<noteq> S3V_MAGIC \<longrightarrow>
      extract_one mm offset length' out_file
        = ([], Some (BadMagicS3V (take 4 (drop (nat offset) mm)))))
   \<and> (snd (extract_one mm offset length' out_file) = Some (BadMagicS3V got) \<longrightarrow>
        0 \<le> offset \<and> 32 \<le> length' \<and> offset + length' \<le> int (length mm)
        \<and> got = take 4 (drop (nat offset) mm) \<and> length got = 4 \<and> got \<noteq> S3V_MAGIC)"
proof (cases "offset < 0 \<or> length' < 32 \<or> offset + length' > int (length mm)")
  case True
  then show ?thesis by (auto simp: extract_one_outside)
next
  case False
  then have b: "0 \<le> offset" "32 \<le> length'" "offset + length' \<le> int (length mm)"
    by auto
  then have "length (take 4 (drop (nat offset) mm)) = 4" by simp
  then show ?thesis
    using b unfolding extract_one_inside [OF b]
    by (auto split: if_splits)
qed

lemmas eval_defs = extract_one_def S3V0_unpack_from_def window_def py_slice_def clamp_index_def
        S3V_MAGIC_def le32_def S3V0_size_def unpack_I_def parent_def

theorem extract_one_bad_magic_witness:
  "(0::int) \<le> 0 \<and> (32::int) \<le> 35 \<and> 0 + 35 \<le> int (length bad_record)
   \<and> take 4 (drop (nat 0) bad_record) \<noteq> S3V_MAGIC
   \<and> extract_one bad_record 0 35 ''a.s3p.out/0001.wav''
        = ([], Some (BadMagicS3V [0x52, 0x49, 0x46, 0x46]))
   \<and> extract_one bad_record 0 36 ''a.s3p.out/0001.wav'' = ([], Some EntryOutsideBounds)"
proof -
  have l: "length bad_record = 35" by (simp add: bad_record_def le32_def)
  have m: "take 4 bad_record = [0x52, 0x49, 0x46, 0x46]" by (simp add: bad_record_def)
  have o: "extract_one bad_record 0 36 ''a.s3p.out/0001.wav'' = ([], Some EntryOutsideBounds)"
    by (simp add: extract_one_def l)
  show ?thesis
    using extract_one_bad_magic [of 0 35 bad_record "''a.s3p.out/0001.wav''" "[0x52, 0x49, 0x46, 0x46]"] o
    by (simp add: l m S3V_MAGIC_def)
qed

text \<open>
  C6. Not every accepted record stores a \<open>header_size\<close> of at least 32:
  a record of exactly 32 bytes whose \<open>header_size\<close> field is 0 is accepted, and the whole
  record, header included, is written out.
\<close>

theorem extract_one_header_size_counterexample:
  "extract_one bare_record 0 32 ''a.s3p.out/0001.wav''
     = ([MkdirParents ''a.s3p.out'', WriteFile ''a.s3p.out/0001.wav'' bare_record], None)
   \<and> unpack_I (take 4 (drop 4 bare_record)) = 0
   \<and> \<not> 32 \<le> unpack_I (take 4 (drop 4 bare_record))"
  by (simp add: eval_defs bare_record_def)

text \<open>
  C6, as the code has it. For every record the extractor accepts, the length from the entry
  table is at least 32 and the record lies inside the archive; the stored \<open>header_size\<close> is
  only bounded from above, by that length.
\<close>

theorem extract_one_accepted_fields:
  assumes "extract_one mm offset length' out_file = (ops, None)"
  shows "32 \<le> length' \<and> 0 \<le> offset \<and> offset + length' \<le> int (length mm)
         \<and> int (unpack_I (take 4 (drop (nat offset + 4) mm))) \<le> length'"
proof (cases "offset < 0 \<or> length' < 32 \<or> offset + length' > int (length mm)")
  case True
  with assms show ?thesis by (simp add: extract_one_outside)
next
  case False
  then have b: "0 \<le> offset" "32 \<le> length'" "offset + length' \<le> int (length mm)"
    by auto
  show ?thesis
    using assms b unfolding extract_one_inside [OF b]
    by (auto simp: unpack_I_prefix split: if_splits)
qed

theorem extract_one_accepted_fields_witness:
  "extract_one bare_record 0 32 ''a.s3p.out/0001.wav''
     = ([MkdirParents ''a.s3p.out'', WriteFile ''a.s3p.out/0001.wav'' bare_record], None)
   \<and> (32::int) \<le> 32
   \<and> int (unpack_I (take 4 (drop (nat 0 + 4) bare_record))) \<le> 32"
proof -
  have e: "extract_one bare_record 0 32 ''a.s3p.out/0001.wav''
     = ([MkdirParents ''a.s3p.out'', WriteFile ''a.s3p.out/0001.wav'' bare_record], None)"
    by (simp add: eval_defs bare_record_def)
  show ?thesis using extract_one_accepted_fields [OF e] e by simp
qed

text \<open>
  C10. When \<^verbatim>\<open>_extract_one\<close> raises (bounds, magic or layout), it has made no request to
  the file system: no directory was made and no output file was opened. All three checks
  come before \<^verbatim>\<open>mkdir\<close> and \<^verbatim>\<open>open\<close>.
\<close>

theorem extract_one_atomic:
  assumes "extract_one mm offset length' out_file = (ops, Some e)"
  shows "ops = []"
proof (cases "offset < 0 \<or> length' < 32 \<or> offset + length' > int (length mm)")
  case True
  with assms show ?thesis by (simp add: extract_one_outside)
next
  case False
  then have b: "0 \<le> offset" "32 \<le> length'" "offset + length' \<le> int (length mm)"
    by auto
  show ?thesis
    using assms unfolding extract_one_inside [OF b]
    by (simp split: if_splits)
qed

theorem extract_one_atomic_witness:
  "extract_one sample_record 0 36 ''a.s3p.out/0001.wav'' = ([], Some EntryOutsideBounds)
   \<and> extract_one bad_record 0 35 ''a.s3p.out/0001.wav''
        = ([], Some (BadMagicS3V [0x52, 0x49, 0x46, 0x46]))
   \<and> extract_one wide_record 0 35 ''a.s3p.out/0001.wav'' = ([], Some InvalidFilestart)"
proof -
  have 1: "\<exists>ops. extract_one sample_record 0 36 ''a.s3p.out/0001.wav'' = (ops, Some EntryOutsideBounds)"
    by (simp add: eval_defs sample_record_def)
  have 2: "\<exists>ops. extract_one bad_record 0 35 ''a.s3p.out/0001.wav''
        = (ops, Some (BadMagicS3V [0x52, 0x49, 0x46, 0x46]))"
    by (simp add: eval_defs bad_record_def)
  have 3: "\<exists>ops. extract_one wide_record 0 35 ''a.s3p.out/0001.wav'' = (ops, Some InvalidFilestart)"
    by (simp add: eval_defs wide_record_def)
  show ?thesis using 1 2 3 extract_one_atomic by blast
qed

lemma HEADER_unpack_inside:
  assumes "8 \<le> length mm"
  shows "HEADER_unpack_from mm 0 = Inr (take 4 mm, unpack_I (take 4 (drop 4 mm)))"
proof -
  have w: "window HEADER_size mm 0 = Inr (take 8 mm)"
    using assms by (simp add: window_def HEADER_size_def)
  show ?thesis
    unfolding HEADER_unpack_from_def w
    by (simp add: drop_take unpack_I_prefix unpack_I_take)
qed

lemma ENTRY_iter_unpack_region:
  assumes "8 + n * 8 \<le> length mm"
  shows "ENTRY_iter_unpack (py_slice mm (int HEADER_size) (int (HEADER_size + n * ENTRY_size)))
         = Inr (ENTRY_rows n (take (n * 8) (drop 8 mm)))"
proof -
  have s: "py_slice mm (int HEADER_size) (int (HEADER_size + n * ENTRY_size))
             = take (n * 8) (drop 8 mm)"
  proof -
    have "nat (8 + int n * 8) - 8 = n * 8" by linarith
    then show ?thesis
      using assms by (subst py_slice_inside) (simp_all add: HEADER_size_def ENTRY_size_def)
  qed
  have l: "length (take (n * 8) (drop 8 mm)) = n * 8"
    using assms by simp
  show ?thesis
    unfolding s ENTRY_iter_unpack_def l by (simp add: ENTRY_size_def)
qed

lemma convert_checks:
  "convert path a =
     (if length a < 8 then ([Mkdir (path @ ''.out'')], Some FileTooSmall)
      else if take 4 a \<noteq> S3P_MAGIC then ([Mkdir (path @ ''.out'')], Some BadMagicS3P)
      else if 8 + unpack_I (take 4 (drop 4 a)) * 8 > length a
           then ([Mkdir (path @ ''.out'')], Some EntryTableExceeds)
      else (case extract_entries a (path @ ''.out'') 1
                   (ENTRY_rows (unpack_I (take 4 (drop 4 a)))
                      (take (unpack_I (take 4 (drop 4 a)) * 8) (drop 8 a))) of
              (ops, r) \<Rightarrow> (Mkdir (path @ ''.out'') # ops, r)))"
proof (cases "length a < 8")
  case True
  then show ?thesis by (simp add: convert_def HEADER_size_def)
next
  case False
  then have h: "HEADER_unpack_from a 0 = Inr (take 4 a, unpack_I (take 4 (drop 4 a)))"
    by (intro HEADER_unpack_inside) simp
  let ?n = "unpack_I (take 4 (drop 4 a))"
  have r: "8 + ?n * 8 \<le> length a \<Longrightarrow>
      ENTRY_iter_unpack (py_slice a (int HEADER_size) (int (HEADER_size + ?n * ENTRY_size)))
         = Inr (ENTRY_rows ?n (take (?n * 8) (drop 8 a)))"
    by (rule ENTRY_iter_unpack_region)
  have c: "convert path a =
     (if take 4 a \<noteq> S3P_MAGIC then ([Mkdir (path @ ''.out'')], Some BadMagicS3P)
      else if HEADER_size + ?n * ENTRY_size > length a
           then ([Mkdir (path @ ''.out'')], Some EntryTableExceeds)
      else (case ENTRY_iter_unpack
                   (py_slice a (int HEADER_size) (int (HEADER_size + ?n * ENTRY_size))) of
              Inl e \<Rightarrow> ([Mkdir (path @ ''.out'')], Some e)
            | Inr entries \<Rightarrow>
               (case extract_entries a (path @ ''.out'') 1 entries of
                  (ops, r) \<Rightarrow> ([Mkdir (path @ ''.out'')] @ ops, r))))"
    using False by (simp add: convert_def h Let_def HEADER_size_def)
  show ?thesis
  proof (cases "8 + ?n * 8 \<le> length a")
    case True
    show ?thesis
      unfolding c using False True r [OF True]
      by (simp add: HEADER_size_def ENTRY_size_def)
  next
    case False
    with \<open>\<not> length a < 8\<close> show ?thesis
      unfolding c by (simp add: HEADER_size_def ENTRY_size_def)
  qed
qed

text \<open>
  C4. \<^verbatim>\<open>convert\<close> fails with "File too small for S3P header" when the archive has fewer
  than 8 bytes; otherwise with "Bad magic! Expected S3P0" when its first four bytes are not
  \<^verbatim>\<open>S3P0\<close>; otherwise with "Entry table exceeds file bounds" when the table of
  \<open>entry_count\<close> rows of 8 bytes would end past the archive; and only otherwise goes on to
  the entries, which are the rows of the table.
\<close>

theorem convert_validation:
  "convert path a =
     (if length a < 8 then ([Mkdir (path @ ''.out'')], Some FileTooSmall)
      else if take 4 a \<noteq> S3P_MAGIC then ([Mkdir (path @ ''.out'')], Some BadMagicS3P)
      else if 8 + unpack_I (take 4 (drop 4 a)) * 8 > length a
           then ([Mkdir (path @ ''.out'')], Some EntryTableExceeds)
      else (case extract_entries a (path @ ''.out'') 1
                   (ENTRY_rows (unpack_I (take 4 (drop 4 a)))
                      (take (unpack_I (take 4 (drop 4 a)) * 8) (drop 8 a))) of
              (ops, r) \<Rightarrow> (Mkdir (path @ ''.out'') # ops, r)))"
  by (rule convert_checks)

text \<open>
  C8. An archive of at least 8 bytes with the magic \<^verbatim>\<open>S3P0\<close> and an entry count of 0 is
  extracted without error and no file is written (only the output directory is made).
\<close>

theorem convert_empty_archive:
  assumes "8 \<le> length a" and "take 4 a = S3P_MAGIC" and "unpack_I (take 4 (drop 4 a)) = 0"
  shows "convert path a = ([Mkdir (path @ ''.out'')], None)
         \<and> written (fst (convert path a)) = []"
proof -
  have "HEADER_unpack_from a 0 = Inr (S3P_MAGIC, 0)"
    using assms HEADER_unpack_inside [of a] by simp
  then have "convert path a = ([Mkdir (path @ ''.out'')], None)"
    using assms(1)
    by (simp add: convert_def Let_def HEADER_size_def ENTRY_iter_unpack_def py_slice_def
        clamp_index_def ENTRY_size_def)
  then show ?thesis by simp
qed

section \<open>Properties of the packer\<close>

lemma take_take_drop: "a \<le> n \<Longrightarrow> take a xs @ take (n - a) (drop a xs) = take n xs"
  using take_add [of a "n - a" xs] by simp

lemma take_length_take: "take (length (take n xs)) xs = take n xs"
  by (auto simp: min_def)

lemma read_write_loop_take: "read_write_loop src remaining = take remaining src"
proof (induction src remaining rule: read_write_loop.induct)
  case (1 src remaining)
  show ?case
  proof (cases "remaining = 0")
    case True
    then show ?thesis by (simp add: read_write_loop.simps)
  next
    case False
    let ?chunk = "take (min chunk_size remaining) src"
    show ?thesis
    proof (cases "?chunk = []")
      case True
      with False have "src = []" by (auto simp: chunk_size_def)
      with False show ?thesis by (subst read_write_loop.simps) simp
    next
      case nonempty: False
      have len: "length ?chunk \<le> remaining" by simp
      have c: "?chunk = take (length ?chunk) src"
        by (rule take_length_take [symmetric])
      have "read_write_loop src remaining
              = ?chunk @ read_write_loop (drop (length ?chunk) src) (remaining - length ?chunk)"
        unfolding read_write_loop.simps [of src remaining] Let_def
        by (simp only: False nonempty if_False)
      also have "\<dots> = ?chunk @ take (remaining - length ?chunk) (drop (length ?chunk) src)"
        using "1.IH" [OF False refl nonempty] by simp
      also have "\<dots> = take (length ?chunk) src
                        @ take (remaining - length ?chunk) (drop (length ?chunk) src)"
        using c by simp
      also have "\<dots> = take remaining src"
        using len by (rule take_take_drop)
      finally show ?thesis .
    qed
  qed
qed

lemma sendfile_loop_take:
  "sendfile_loop src sz sent_total =
     (take (sz - sent_total) (drop sent_total src),
      sent_total + min (sz - sent_total) (length src - sent_total))"
proof (induction src sz sent_total rule: sendfile_loop.induct)
  case (1 src sz sent_total)
  show ?case
  proof (cases "sent_total < sz")
    case False
    then show ?thesis by (subst sendfile_loop.simps) simp
  next
    case True
    let ?chunk = "take (sz - sent_total) (drop sent_total src)"
    let ?sent = "length ?chunk"
    show ?thesis
    proof (cases "?sent = 0")
      case True
      then have c: "?chunk = []" by (simp del: length_take)
      have "sendfile_loop src sz sent_total = ([], sent_total)"
        using \<open>sent_total < sz\<close> c by (subst sendfile_loop.simps) (simp add: Let_def del: length_take)
      moreover have "min (sz - sent_total) (length src - sent_total) = 0"
        using True by simp
      ultimately show ?thesis using c by simp
    next
      case False
      have ih: "sendfile_loop src sz (sent_total + ?sent) =
         (take (sz - (sent_total + ?sent)) (drop (sent_total + ?sent) src),
          sent_total + ?sent + min (sz - (sent_total + ?sent)) (length src - (sent_total + ?sent)))"
        using "1.IH" [OF True refl refl False] .
      have e: "take (sz - (sent_total + ?sent)) (drop (sent_total + ?sent) src) = []"
        by (auto simp: min_def)
      have m: "min (sz - (sent_total + ?sent)) (length src - (sent_total + ?sent)) = 0"
        by (auto simp: min_def)
      have "sendfile_loop src sz sent_total = (?chunk, sent_total + ?sent)"
        using True False by (subst sendfile_loop.simps) (simp add: Let_def ih e m del: length_take)
      then show ?thesis by simp
    qed
  qed
qed

lemma copy_file_fast_take: "copy_file_fast sf src sz = take (nat sz) src"
proof (cases "sz \<le> 0")
  case True
  then show ?thesis by (simp add: copy_file_fast_def)
next
  case False
  show ?thesis
  proof (cases sf)
    case False
    with \<open>\<not> sz \<le> 0\<close> show ?thesis
      by (simp add: copy_file_fast_def read_write_loop_take)
  next
    case True
    have "take (nat sz) src @ take (nat sz) (drop (min (nat sz) (length src)) src) = take (nat sz) src"
      if "min (nat sz) (length src) \<noteq> nat sz"
      using that by (simp add: min_def split: if_splits)
    with True \<open>\<not> sz \<le> 0\<close> show ?thesis
      by (simp add: copy_file_fast_def sendfile_loop_take read_write_loop_take)
  qed
qed

lemma split4:
  fixes n :: nat
  shows "n mod 256 + 256 * (n div 256 mod 256) + 65536 * (n div 65536 mod 256) +
     16777216 * (n div 16777216) = n"
proof -
  define a where "a = n div 256"
  define b where "b = a div 256"
  define c where "c = b div 256"
  have n: "n = n mod 256 + 256 * a" by (simp add: a_def)
  have a: "a = a mod 256 + 256 * b" by (simp add: b_def)
  have b: "b = b mod 256 + 256 * c" by (simp add: c_def)
  have b': "n div 65536 = b" by (simp add: a_def b_def div_mult2_eq)
  have c': "n div 16777216 = c" by (simp add: a_def b_def c_def div_mult2_eq)
  show ?thesis unfolding b' c' a_def[symmetric] using n a b by linarith
qed

lemma unpack_le32: "n < 4294967296 \<Longrightarrow> unpack_I (le32 n) = n"
  using split4[of n] by (simp add: unpack_I_def le32_def unat_of_nat)

lemma length_le32 [simp]: "length (le32 n) = 4"
  by (simp add: le32_def)

lemma unpack_I_append: "length a = 4 \<Longrightarrow> unpack_I (a @ rest) = unpack_I a"
  by (simp add: unpack_I_def nth_append)

lemma unpack_le32_append: "n < 4294967296 \<Longrightarrow> unpack_I (le32 n @ rest) = n"
  by (simp add: unpack_I_append unpack_le32)

lemma pack_I_ok: "0 \<le> v \<Longrightarrow> v \<le> 4294967295 \<Longrightarrow> pack_I v = Inr (le32 (nat v))"
  by (simp add: pack_I_def u32_max_def)

lemma length_S3V_MAGIC [simp]: "length S3V_MAGIC = 4"
  by (simp add: S3V_MAGIC_def)

lemma length_S3P_MAGIC [simp]: "length S3P_MAGIC = 4"
  by (simp add: S3P_MAGIC_def)

lemma length_record_bytes [simp]: "length (record_bytes f) = 32 + length (copied f)"
  by (simp add: record_bytes_def)

lemma S3V0_pack_ok:
  "0 \<le> sz \<Longrightarrow> sz \<le> 4294967295 \<Longrightarrow>
   S3V0_pack S3V_MAGIC 0x20 sz (replicate 20 0)
     = Inr (S3V_MAGIC @ le32 32 @ le32 (nat sz) @ replicate 20 0)"
  by (simp add: S3V0_pack_def pack_I_ok pack_s_def)

lemma S3V0_pack_negative:
  "sz < 0 \<Longrightarrow> S3V0_pack S3V_MAGIC 0x20 sz (replicate 20 0) = Inl StructError"
  by (simp add: S3V0_pack_def pack_I_def u32_max_def)

lemma out_write_append:
  "pos f = length (data f) \<Longrightarrow>
   out_write f bs = \<lparr>data = data f @ bs, pos = length (data f) + length bs\<rparr>"
  by (simp add: out_write_def)

lemma pack_files_step:
  assumes "pos out_f = length (data out_f)"
  shows "pack_files sf (src # rest) out_f entries =
     (if st_size src > 4294967295 then Inl (FileTooLarge (src_path src), out_f)
      else if st_size src < 0 then Inl (StructError, out_f)
      else if int (length (data out_f)) > 4294967295
              \<or> int (32 + length (copied src)) > 4294967295
           then Inl (ArchiveExceeds,
                     \<lparr>data = data out_f @ record_bytes src,
                      pos = length (data out_f) + (32 + length (copied src))\<rparr>)
           else pack_files sf rest
                  \<lparr>data = data out_f @ record_bytes src,
                   pos = length (data out_f) + (32 + length (copied src))\<rparr>
                  (entries @ [(int (length (data out_f)), int (32 + length (copied src)))]))"
proof (cases "st_size src > 4294967295 \<or> st_size src < 0")
  case True
  then show ?thesis by (auto simp: S3V0_pack_negative)
next
  case False
  then have r: "0 \<le> st_size src" "st_size src \<le> 4294967295" by auto
  let ?hdr = "S3V_MAGIC @ le32 32 @ le32 (nat (st_size src)) @ replicate 20 0"
  have w1: "out_write out_f ?hdr
      = \<lparr>data = data out_f @ ?hdr, pos = length (data out_f) + 32\<rparr>"
    using assms by (simp add: out_write_append)
  have w2: "out_write \<lparr>data = data out_f @ ?hdr, pos = length (data out_f) + 32\<rparr> (copied src)
      = \<lparr>data = data out_f @ record_bytes src,
         pos = length (data out_f) + (32 + length (copied src))\<rparr>"
    by (simp add: out_write_append record_bytes_def)
  show ?thesis
    using r
    by (simp add: S3V0_pack_ok [OF r] w1 copy_file_fast_take copied_def [symmetric] w2
        out_tell_def Let_def assms)
qed

lemma pack_files_ok:
  assumes "pos out_f = length (data out_f)"
    and "pack_files sf fs out_f entries = Inr (out', entries')"
  shows "data out' = data out_f @ concat (map record_bytes fs)
       \<and> pos out' = length (data out')
       \<and> entries' = entries @ map (\<lambda>r. (int (fst r), int (snd r))) (layout (length (data out_f)) fs)
       \<and> (\<forall>f \<in> set fs. 0 \<le> st_size f \<and> st_size f \<le> 4294967295)
       \<and> (\<forall>r \<in> set (layout (length (data out_f)) fs). fst r \<le> 4294967295 \<and> snd r \<le> 4294967295)"
  using assms
proof (induction fs arbitrary: out_f entries)
  case Nil
  then show ?case by simp
next
  case (Cons src rest)
  let ?out2 = "\<lparr>data = data out_f @ record_bytes src,
                 pos = length (data out_f) + (32 + length (copied src))\<rparr>"
  let ?e = "(int (length (data out_f)), int (32 + length (copied src)))"
  note step = pack_files_step [OF Cons.prems(1), of sf src rest entries]
  from Cons.prems(2) step
  have c: "\<not> st_size src > 4294967295" "\<not> st_size src < 0"
      "\<not> (int (length (data out_f)) > 4294967295 \<or> int (32 + length (copied src)) > 4294967295)"
    and rec: "pack_files sf rest ?out2 (entries @ [?e]) = Inr (out', entries')"
    by (auto split: if_splits)
  have p: "pos ?out2 = length (data ?out2)" by simp
  from Cons.IH [OF p rec] c show ?case
    by (simp add: add.assoc)
qed

lemma length_row_bytes [simp]: "length (row_bytes r) = 8"
  by (simp add: row_bytes_def)

lemma ENTRY_pack_into_ok:
  assumes "length pre = off" and "a \<le> 4294967295" and "b \<le> 4294967295"
  shows "ENTRY_pack_into (pre @ replicate (8 * Suc k) 0) off (int a) (int b)
           = Inr ((pre @ row_bytes (a, b)) @ replicate (8 * k) 0)"
  using assms
  by (simp add: ENTRY_pack_into_def ENTRY_size_def pack_I_ok row_bytes_def)

lemma pack_table_ok:
  assumes "length pre = i * 8"
    and "\<forall>r \<in> set rows. fst r \<le> 4294967295 \<and> snd r \<le> 4294967295"
  shows "pack_table (pre @ replicate (8 * length rows) 0) i
           (map (\<lambda>r. (int (fst r), int (snd r))) rows)
         = Inr (pre @ concat (map row_bytes rows))"
  using assms
proof (induction rows arbitrary: pre i)
  case Nil
  then show ?case by simp
next
  case (Cons r rows)
  obtain a b where r: "r = (a, b)" by (cases r)
  have ab: "a \<le> 4294967295" "b \<le> 4294967295" using Cons.prems(2) r by auto
  have l: "length pre = i * ENTRY_size" using Cons.prems(1) by (simp add: ENTRY_size_def)
  have e: "ENTRY_pack_into (pre @ replicate (8 * Suc (length rows)) 0) (i * ENTRY_size) (int a) (int b)
           = Inr ((pre @ row_bytes (a, b)) @ replicate (8 * length rows) 0)"
    using l ab by (rule ENTRY_pack_into_ok)
  have l': "length (pre @ row_bytes (a, b)) = Suc i * 8" using Cons.prems(1) by simp
  have rest: "\<forall>r \<in> set rows. fst r \<le> 4294967295 \<and> snd r \<le> 4294967295"
    using Cons.prems(2) by simp
  show ?case
    using Cons.IH [OF l' rest] e by (simp add: r)
qed

lemma length_layout [simp]: "length (layout base fs) = length fs"
  by (induction fs arbitrary: base) simp_all

lemma pack_Packed:
  assumes "pack sf fs = Packed archive"
  shows "archive = S3P_MAGIC @ le32 (length fs)
                   @ concat (map row_bytes (layout (8 + 8 * length fs) fs))
                   @ concat (map record_bytes fs) @ le32 305419896
       \<and> length fs \<le> 4294967295
       \<and> (\<forall>f \<in> set fs. 0 \<le> st_size f \<and> st_size f \<le> 4294967295)
       \<and> (\<forall>r \<in> set (layout (8 + 8 * length fs) fs). fst r \<le> 4294967295 \<and> snd r \<le> 4294967295)"
proof -
  let ?n = "length fs"
  let ?out2 = "\<lparr>data = S3P_MAGIC @ le32 ?n @ replicate (8 * ?n) 0, pos = 8 + 8 * ?n\<rparr>"
  have n: "?n \<le> 4294967295"
  proof (rule ccontr)
    assume "\<not> ?n \<le> 4294967295"
    then have "HEADER_pack S3P_MAGIC (int ?n) = Inl StructError"
      by (simp add: HEADER_pack_def pack_I_def u32_max_def)
    then have "pack sf fs = PackFailed StructError []"
      by (simp add: pack_def)
    with assms show False by simp
  qed
  then have h: "HEADER_pack S3P_MAGIC (int ?n) = Inr (S3P_MAGIC @ le32 ?n)"
    by (simp add: HEADER_pack_def pack_I_ok pack_s_def)
  have o2: "out_write (out_write \<lparr>data = [], pos = 0\<rparr> (S3P_MAGIC @ le32 ?n))
              (replicate (ENTRY_size * ?n) 0) = ?out2"
    by (simp add: out_write_def ENTRY_size_def)
  have m: "pack_I END_MARKER = Inr (le32 305419896)"
    by (simp add: END_MARKER_def pack_I_ok)
  from assms obtain out3 entries where
    pf: "pack_files sf fs ?out2 [] = Inr (out3, entries)"
    by (auto simp: pack_def h o2 Let_def split: sum.splits prod.splits)
  have p2: "pos ?out2 = length (data ?out2)" by simp
  note ok = pack_files_ok [OF p2 pf]
  let ?rows = "layout (8 + 8 * ?n) fs"
  have d3: "data out3 = S3P_MAGIC @ le32 ?n @ replicate (8 * ?n) 0 @ concat (map record_bytes fs)"
    and p3: "pos out3 = length (data out3)"
    and es: "entries = map (\<lambda>r. (int (fst r), int (snd r))) ?rows"
    and bf: "\<forall>f \<in> set fs. 0 \<le> st_size f \<and> st_size f \<le> 4294967295"
    and br: "\<forall>r \<in> set ?rows. fst r \<le> 4294967295 \<and> snd r \<le> 4294967295"
    using ok by simp_all
  have t: "pack_table (replicate (ENTRY_size * ?n) 0) 0 entries = Inr (concat (map row_bytes ?rows))"
    using pack_table_ok [of "[]" 0 ?rows] br by (simp add: es ENTRY_size_def)
  have lt: "length (concat (map row_bytes ?rows)) = 8 * ?n"
    by (simp add: length_concat comp_def sum_list_triv)
  have fin: "data (out_write (out_seek (out_write out3 (le32 305419896)) HEADER_size)
                     (concat (map row_bytes ?rows)))
             = S3P_MAGIC @ le32 ?n @ concat (map row_bytes ?rows)
               @ concat (map record_bytes fs) @ le32 305419896"
    using p3 by (simp add: out_write_def out_seek_def HEADER_size_def d3 lt)
  have "pack sf fs = Packed (S3P_MAGIC @ le32 ?n @ concat (map row_bytes ?rows)
               @ concat (map record_bytes fs) @ le32 305419896)"
    by (simp add: pack_def h o2 Let_def pf m t fin)
  with assms n bf br show ?thesis by simp
qed

lemma ENTRY_rows_row_bytes:
  assumes "\<forall>r \<in> set rows. fst r \<le> 4294967295 \<and> snd r \<le> 4294967295"
  shows "ENTRY_rows (length rows) (concat (map row_bytes rows) @ rest) = rows"
  using assms
proof (induction rows)
  case Nil
  then show ?case by simp
next
  case (Cons r rows)
  then have b: "fst r < 4294967296" "snd r < 4294967296" by auto
  have "unpack_I (take 4 (row_bytes r @ concat (map row_bytes rows) @ rest)) = fst r"
    using b by (simp add: row_bytes_def unpack_le32)
  moreover
  have "unpack_I (take 4 (drop 4 (row_bytes r @ concat (map row_bytes rows) @ rest))) = snd r"
    using b by (simp add: row_bytes_def unpack_le32)
  ultimately show ?case
    using Cons by simp
qed

lemma extract_one_record:
  "extract_one (pre @ record_bytes f @ rest) (int (length pre)) (int (32 + length (copied f)))
     out_file
   = ([MkdirParents (parent out_file), WriteFile out_file (copied f)], None)"
proof -
  let ?mm = "pre @ record_bytes f @ rest"
  have b: "0 \<le> int (length pre)" "32 \<le> int (32 + length (copied f))"
    "int (length pre) + int (32 + length (copied f)) \<le> int (length ?mm)"
    by simp_all
  have m: "take 4 (drop (nat (int (length pre))) ?mm) = S3V_MAGIC"
    by (simp add: record_bytes_def)
  have h: "unpack_I (drop (nat (int (length pre)) + 4) ?mm) = 32"
    by (simp add: record_bytes_def unpack_le32_append)
  have p: "take (nat (int (32 + length (copied f))) - 32) (drop (nat (int (length pre)) + 32) ?mm)
            = copied f"
    by (simp add: record_bytes_def)
  show ?thesis
    unfolding extract_one_inside [OF b] m h using p by simp
qed

lemma extract_entries_layout:
  "extract_entries (pre @ concat (map record_bytes fs) @ post) out_dir i (layout (length pre) fs)
   = (concat (map (\<lambda>(j, f).
         [MkdirParents (parent (joinpath out_dir (fmt04d j @ ''.wav''))),
          WriteFile (joinpath out_dir (fmt04d j @ ''.wav'')) (copied f)])
        (zip [i..<i + length fs] fs)), None)"
proof (induction fs arbitrary: pre i)
  case Nil
  show ?case by simp
next
  case (Cons f fs)
  let ?mm = "pre @ concat (map record_bytes (f # fs)) @ post"
  let ?file = "joinpath out_dir (fmt04d i @ ''.wav'')"
  have mm1: "?mm = pre @ record_bytes f @ (concat (map record_bytes fs) @ post)" by simp
  have mm2: "?mm = (pre @ record_bytes f) @ concat (map record_bytes fs) @ post" by simp
  have one: "extract_one ?mm (int (length pre)) (int (32 + length (copied f))) ?file
      = ([MkdirParents (parent ?file), WriteFile ?file (copied f)], None)"
    unfolding mm1 by (rule extract_one_record)
  have l: "length pre + (32 + length (copied f)) = length (pre @ record_bytes f)" by simp
  have rest: "extract_entries ?mm out_dir (Suc i) (layout (length pre + (32 + length (copied f))) fs)
     = (concat (map (\<lambda>(j, f).
         [MkdirParents (parent (joinpath out_dir (fmt04d j @ ''.wav''))),
          WriteFile (joinpath out_dir (fmt04d j @ ''.wav'')) (copied f)])
        (zip [Suc i..<Suc i + length fs] fs)), None)"
    unfolding mm2 l by (rule Cons.IH)
  have u: "[i..<i + length (f # fs)] = i # [Suc i..<Suc i + length fs]"
    by (simp add: upt_rec)
  show ?case
    unfolding u using one rest by (simp del: append_assoc)
qed


section \<open>Packing and extracting\<close>

lemma length_concat_rows [simp]: "length (concat (map row_bytes rows)) = length rows * 8"
  by (induction rows) simp_all

lemma convert_packed:
  assumes n: "length fs \<le> 4294967295"
    and br: "\<forall>r \<in> set (layout (8 + 8 * length fs) fs). fst r \<le> 4294967295 \<and> snd r \<le> 4294967295"
  shows "convert path (S3P_MAGIC @ le32 (length fs)
                   @ concat (map row_bytes (layout (8 + 8 * length fs) fs))
                   @ concat (map record_bytes fs) @ trailer)
     = (Mkdir (path @ ''.out'') #
        concat (map (\<lambda>(j, f).
         [MkdirParents (parent (joinpath (path @ ''.out'') (fmt04d j @ ''.wav''))),
          WriteFile (joinpath (path @ ''.out'') (fmt04d j @ ''.wav'')) (copied f)])
        (zip [1..<1 + length fs] fs)), None)"
proof -
  let ?n = "length fs"
  let ?rows = "layout (8 + 8 * ?n) fs"
  let ?T = "concat (map row_bytes ?rows)"
  let ?B = "concat (map record_bytes fs)"
  let ?a = "S3P_MAGIC @ le32 ?n @ ?T @ ?B @ trailer"
  have lt: "length ?T = 8 * ?n"
    by simp
  have l8: "\<not> length ?a < 8" by simp
  have mg: "take 4 ?a = S3P_MAGIC" by simp
  have cnt: "unpack_I (take 4 (drop 4 ?a)) = ?n"
    using n by (simp add: unpack_le32)
  have fits: "\<not> 8 + ?n * 8 > length ?a" by (simp add: lt)
  have tb: "take (?n * 8) (drop 8 ?a) = ?T"
    by simp
  have rows: "ENTRY_rows ?n ?T = ?rows"
    using ENTRY_rows_row_bytes [OF br, of "[]"] by simp
  have pre: "?a = (S3P_MAGIC @ le32 ?n @ ?T) @ ?B @ trailer" by simp
  have lp: "length (S3P_MAGIC @ le32 ?n @ ?T) = 8 + 8 * ?n" by (simp add: lt)
  have ex: "extract_entries ?a (path @ ''.out'') 1 ?rows
     = (concat (map (\<lambda>(j, f).
         [MkdirParents (parent (joinpath (path @ ''.out'') (fmt04d j @ ''.wav''))),
          WriteFile (joinpath (path @ ''.out'') (fmt04d j @ ''.wav'')) (copied f)])
        (zip [1..<1 + length fs] fs)), None)"
    using extract_entries_layout [of "S3P_MAGIC @ le32 ?n @ ?T" fs trailer "path @ ''.out''" 1]
    unfolding lp pre [symmetric] .
  show ?thesis
    unfolding convert_checks [of path ?a] cnt tb rows ex
    using l8 mg fits unfolding cnt by simp
qed

lemma pack_files_succeeds:
  assumes "pos out_f = length (data out_f)"
    and "\<forall>f \<in> set fs. 0 \<le> st_size f \<and> st_size f \<le> 4294967295"
    and "\<forall>r \<in> set (layout (length (data out_f)) fs). fst r \<le> 4294967295 \<and> snd r \<le> 4294967295"
  shows "pack_files sf fs out_f entries
     = Inr (\<lparr>data = data out_f @ concat (map record_bytes fs),
             pos = length (data out_f @ concat (map record_bytes fs))\<rparr>,
            entries @ map (\<lambda>r. (int (fst r), int (snd r))) (layout (length (data out_f)) fs))"
  using assms
proof (induction fs arbitrary: out_f entries)
  case Nil
  then show ?case by simp
next
  case (Cons src rest)
  let ?out2 = "\<lparr>data = data out_f @ record_bytes src,
                 pos = length (data out_f) + (32 + length (copied src))\<rparr>"
  let ?e = "(int (length (data out_f)), int (32 + length (copied src)))"
  have c: "\<not> st_size src > 4294967295" "\<not> st_size src < 0"
      "\<not> (int (length (data out_f)) > 4294967295 \<or> int (32 + length (copied src)) > 4294967295)"
    using Cons.prems(2,3) by auto
  have step: "pack_files sf (src # rest) out_f entries = pack_files sf rest ?out2 (entries @ [?e])"
    unfolding pack_files_step [OF Cons.prems(1), of sf src rest entries] using c by simp
  have p: "pos ?out2 = length (data ?out2)" by simp
  have f: "\<forall>f \<in> set rest. 0 \<le> st_size f \<and> st_size f \<le> 4294967295"
    using Cons.prems(2) by simp
  have r: "\<forall>r \<in> set (layout (length (data ?out2)) rest). fst r \<le> 4294967295 \<and> snd r \<le> 4294967295"
    using Cons.prems(3) by simp
  show ?case
    unfolding step Cons.IH [OF p f r] by (simp add: add.assoc)
qed

lemma pack_succeeds:
  assumes n: "length fs \<le> 4294967295"
    and bf: "\<forall>f \<in> set fs. 0 \<le> st_size f \<and> st_size f \<le> 4294967295"
    and br: "\<forall>r \<in> set (layout (8 + 8 * length fs) fs). fst r \<le> 4294967295 \<and> snd r \<le> 4294967295"
  shows "pack sf fs = Packed (S3P_MAGIC @ le32 (length fs)
                   @ concat (map row_bytes (layout (8 + 8 * length fs) fs))
                   @ concat (map record_bytes fs) @ le32 305419896)"
proof -
  let ?n = "length fs"
  let ?out2 = "\<lparr>data = S3P_MAGIC @ le32 ?n @ replicate (8 * ?n) 0, pos = 8 + 8 * ?n\<rparr>"
  let ?rows = "layout (8 + 8 * ?n) fs"
  let ?out3 = "\<lparr>data = data ?out2 @ concat (map record_bytes fs),
                 pos = length (data ?out2 @ concat (map record_bytes fs))\<rparr>"
  have h: "HEADER_pack S3P_MAGIC (int ?n) = Inr (S3P_MAGIC @ le32 ?n)"
    using n by (simp add: HEADER_pack_def pack_I_ok pack_s_def)
  have o2: "out_write (out_write \<lparr>data = [], pos = 0\<rparr> (S3P_MAGIC @ le32 ?n))
              (replicate (ENTRY_size * ?n) 0) = ?out2"
    by (simp add: out_write_def ENTRY_size_def)
  have m: "pack_I END_MARKER = Inr (le32 305419896)"
    by (simp add: END_MARKER_def pack_I_ok)
  have p2: "pos ?out2 = length (data ?out2)" by simp
  have br': "\<forall>r \<in> set (layout (length (data ?out2)) fs). fst r \<le> 4294967295 \<and> snd r \<le> 4294967295"
    using br by simp
  have pf: "pack_files sf fs ?out2 []
      = Inr (?out3, map (\<lambda>r. (int (fst r), int (snd r))) ?rows)"
    using pack_files_succeeds [OF p2 bf br', of sf "[]"] by simp
  have t: "pack_table (replicate (ENTRY_size * ?n) 0) 0 (map (\<lambda>r. (int (fst r), int (snd r))) ?rows)
      = Inr (concat (map row_bytes ?rows))"
    using pack_table_ok [of "[]" 0 ?rows] br by (simp add: ENTRY_size_def)
  have fin: "data (out_write (out_seek (out_write ?out3 (le32 305419896)) HEADER_size)
                     (concat (map row_bytes ?rows)))
             = S3P_MAGIC @ le32 ?n @ concat (map row_bytes ?rows)
               @ concat (map record_bytes fs) @ le32 305419896"
    by (simp add: out_write_def out_seek_def HEADER_size_def)
  show ?thesis
    by (simp only: pack_def Let_def h o2 pf m t fin sum.case prod.case)
qed








lemma length_out_names [simp]: "length (out_names path i n) = n"
  by (simp add: out_names_def)




lemma fmt04d_1: "fmt04d 1 = ''0001''"
  by code_simp

lemma fmt04d_2: "fmt04d 2 = ''0002''"
  by code_simp

lemma parent_joinpath: "CHR ''/'' \<notin> set n \<Longrightarrow> d \<noteq> [] \<Longrightarrow> parent (joinpath d n) = d"
proof -
  assume n: "CHR ''/'' \<notin> set n" and d: "d \<noteq> []"
  have "dropWhile (\<lambda>c. c \<noteq> CHR ''/'') (rev n @ CHR ''/'' # rev d) = CHR ''/'' # rev d"
    using n by (subst dropWhile_append2) auto
  then show ?thesis
    using d by (simp add: parent_def joinpath_def Let_def)
qed

text \<open>
  C9. Packing two files of 3 and 5 bytes gives an archive that starts with \<^verbatim>\<open>S3P0\<close> and the
  little-endian count 2, whose entry table is the two 8-byte rows (24, 35) and (59, 37), so
  that the first record starts right after a table of 16 bytes, and whose extraction writes
  \<^verbatim>\<open>0001.wav\<close> with the bytes of the first file and \<^verbatim>\<open>0002.wav\<close> with those of the second.
\<close>

theorem pack_scenario:
  assumes "st_size a = 3" and "length (content a) = 3"
    and "st_size b = 5" and "length (content b) = 5"
  shows "\<exists>archive. pack sf [a, b] = Packed archive
     \<and> take 8 archive = [0x53, 0x33, 0x50, 0x30, 2, 0, 0, 0]
     \<and> ENTRY_iter_unpack (py_slice archive 8 24) = Inr [(24, 35), (59, 37)]
     \<and> convert ''out.s3p'' archive
         = ([Mkdir ''out.s3p.out'',
             MkdirParents ''out.s3p.out'', WriteFile ''out.s3p.out/0001.wav'' (content a),
             MkdirParents ''out.s3p.out'', WriteFile ''out.s3p.out/0002.wav'' (content b)], None)"
proof -
  let ?fs = "[a, b]"
  let ?archive = "S3P_MAGIC @ le32 (length ?fs)
                   @ concat (map row_bytes (layout (8 + 8 * length ?fs) ?fs))
                   @ concat (map record_bytes ?fs) @ le32 305419896"
  have ca: "copied a = content a" and cb: "copied b = content b"
    using assms by (simp_all add: copied_def)
  have lay: "layout (8 + 8 * length ?fs) ?fs = [(24, 35), (59, 37)]"
    using assms by (simp add: ca cb)
  have n: "length ?fs \<le> 4294967295" by simp
  have bf: "\<forall>f \<in> set ?fs. 0 \<le> st_size f \<and> st_size f \<le> 4294967295"
    using assms by simp
  have br: "\<forall>r \<in> set (layout (8 + 8 * length ?fs) ?fs). fst r \<le> 4294967295 \<and> snd r \<le> 4294967295"
    unfolding lay by simp
  have p: "pack sf ?fs = Packed ?archive"
    using n bf br by (rule pack_succeeds)
  have hd: "take 8 ?archive = [0x53, 0x33, 0x50, 0x30, 2, 0, 0, 0]"
    by (simp add: S3P_MAGIC_def le32_def)
  have la: "24 \<le> length ?archive" by (simp add: lay)
  have sl: "py_slice ?archive 8 24 = concat (map row_bytes [(24, 35), (59, 37)])"
    using la unfolding lay by (subst py_slice_inside) simp_all
  have rows: "ENTRY_iter_unpack (py_slice ?archive 8 24) = Inr [(24, 35), (59, 37)]"
    unfolding sl
    using ENTRY_rows_row_bytes [of "[(24, 35), (59, 37)]" "[]"]
    by (simp add: ENTRY_iter_unpack_def ENTRY_size_def numeral_2_eq_2)
  have pa: "parent ''out.s3p.out/0001.wav'' = ''out.s3p.out''"
       "parent ''out.s3p.out/0002.wav'' = ''out.s3p.out''"
    by (simp_all add: parent_def)
  have f1: "fmt04d (Suc 0) = ''0001''"
    using fmt04d_1 by simp
  have u: "[1..<1 + length ?fs] = [1, 2]" by (simp add: upt_rec)
  have cv: "convert ''out.s3p'' ?archive
         = ([Mkdir ''out.s3p.out'',
             MkdirParents ''out.s3p.out'', WriteFile ''out.s3p.out/0001.wav'' (content a),
             MkdirParents ''out.s3p.out'', WriteFile ''out.s3p.out/0002.wav'' (content b)], None)"
    unfolding convert_packed [OF n br, of "''out.s3p''" "le32 305419896"] u
    by (simp add: f1 fmt04d_2 joinpath_def pa ca cb)
  show ?thesis
    using p hd rows cv by blast
qed

theorem pack_scenario_witness:
  "st_size a_bin = 3 \<and> length (content a_bin) = 3 \<and> st_size b_bin = 5 \<and> length (content b_bin) = 5
   \<and> (\<exists>archive. pack True [a_bin, b_bin] = Packed archive
     \<and> take 8 archive = [0x53, 0x33, 0x50, 0x30, 2, 0, 0, 0]
     \<and> ENTRY_iter_unpack (py_slice archive 8 24) = Inr [(24, 35), (59, 37)]
     \<and> convert ''out.s3p'' archive
         = ([Mkdir ''out.s3p.out'',
             MkdirParents ''out.s3p.out'', WriteFile ''out.s3p.out/0001.wav'' [1, 2, 3],
             MkdirParents ''out.s3p.out'', WriteFile ''out.s3p.out/0002.wav'' [4, 5, 6, 7, 8]], None))"
  using pack_scenario [of a_bin b_bin True]
  by (simp add: a_bin_def b_bin_def)

lemma pack_a_b: "pack sf [a_bin, b_bin] = Packed out_s3p"
proof -
  have n: "length [a_bin, b_bin] \<le> 4294967295" by simp
  have bf: "\<forall>f \<in> set [a_bin, b_bin]. 0 \<le> st_size f \<and> st_size f \<le> 4294967295"
    by (simp add: a_bin_def b_bin_def)
  have lay: "layout (8 + 8 * length [a_bin, b_bin]) [a_bin, b_bin] = [(24, 35), (59, 37)]"
    by (simp add: a_bin_def b_bin_def copied_def)
  have br: "\<forall>r \<in> set (layout (8 + 8 * length [a_bin, b_bin]) [a_bin, b_bin]).
              fst r \<le> 4294967295 \<and> snd r \<le> 4294967295"
    unfolding lay by simp
  have "S3P_MAGIC @ le32 (length [a_bin, b_bin])
          @ concat (map row_bytes (layout (8 + 8 * length [a_bin, b_bin]) [a_bin, b_bin]))
          @ concat (map record_bytes [a_bin, b_bin]) @ le32 305419896 = out_s3p"
    unfolding lay
    by (simp add: out_s3p_def S3P_MAGIC_def S3V_MAGIC_def le32_def row_bytes_def record_bytes_def
        copied_def a_bin_def b_bin_def)
  then show ?thesis
    using pack_succeeds [OF n bf br, of sf] by simp
qed


theorem convert_validation_witness:
  "convert ''a.s3p'' [0x53, 0x33, 0x50] = ([Mkdir ''a.s3p.out''], Some FileTooSmall)
   \<and> convert ''a.s3p'' [0x52, 0x49, 0x46, 0x46, 0, 0, 0, 0]
       = ([Mkdir ''a.s3p.out''], Some BadMagicS3P)
   \<and> convert ''a.s3p'' [0x53, 0x33, 0x50, 0x30, 1, 0, 0, 0, 0, 0, 0, 0]
       = ([Mkdir ''a.s3p.out''], Some EntryTableExceeds)
   \<and> convert ''a.s3p'' empty_s3p = ([Mkdir ''a.s3p.out''], None)"
  using convert_validation [of "''a.s3p''" "[0x53, 0x33, 0x50]"]
    convert_validation [of "''a.s3p''" "[0x52, 0x49, 0x46, 0x46, 0, 0, 0, 0]"]
    convert_validation [of "''a.s3p''" "[0x53, 0x33, 0x50, 0x30, 1, 0, 0, 0, 0, 0, 0, 0]"]
    convert_validation [of "''a.s3p''" empty_s3p]
  by (simp add: S3P_MAGIC_def unpack_I_def empty_s3p_def)

theorem convert_empty_archive_witness:
  "8 \<le> length empty_s3p \<and> take 4 empty_s3p = S3P_MAGIC
   \<and> unpack_I (take 4 (drop 4 empty_s3p)) = 0
   \<and> convert ''a.s3p'' empty_s3p = ([Mkdir ''a.s3p.out''], None)
   \<and> written (fst (convert ''a.s3p'' empty_s3p)) = []"
proof -
  have h: "8 \<le> length empty_s3p" "take 4 empty_s3p = S3P_MAGIC"
    "unpack_I (take 4 (drop 4 empty_s3p)) = 0"
    by (simp_all add: empty_s3p_def S3P_MAGIC_def unpack_I_def)
  show ?thesis
    using convert_empty_archive [OF h, of "''a.s3p''"] h by simp
qed

section \<open>Size limits\<close>

lemma pack_files_too_large:
  "st_size f > 4294967295 \<Longrightarrow>
   pack_files sf (f # rest) out_f entries = Inl (FileTooLarge (src_path f), out_f)"
  by simp

lemma S3V0_pack_Inl:
  "S3V0_pack magic 0x20 sz unknown = Inl e \<Longrightarrow> e = StructError \<and> (sz < 0 \<or> sz > 4294967295)"
  by (auto simp: S3V0_pack_def pack_I_def u32_max_def split: if_splits sum.splits)

lemma pack_files_Cons_cases:
  "pack_files sf (src # rest) out_f entries =
     (if st_size src > 4294967295 then Inl (FileTooLarge (src_path src), out_f)
      else case S3V0_pack S3V_MAGIC 0x20 (st_size src) (replicate 20 0) of
             Inl e \<Rightarrow> Inl (e, out_f)
           | Inr hdr \<Rightarrow>
               if out_tell out_f > 4294967295
                  \<or> out_tell (out_write (out_write out_f hdr)
                                 (copy_file_fast sf (content src) (st_size src)))
                      - out_tell out_f > 4294967295
               then Inl (ArchiveExceeds,
                         out_write (out_write out_f hdr)
                                 (copy_file_fast sf (content src) (st_size src)))
               else pack_files sf rest
                      (out_write (out_write out_f hdr)
                                 (copy_file_fast sf (content src) (st_size src)))
                      (entries @ [(out_tell out_f,
                          out_tell (out_write (out_write out_f hdr)
                                 (copy_file_fast sf (content src) (st_size src)))
                          - out_tell out_f)]))"
  by (simp add: Let_def split: sum.splits)

lemma pack_files_append:
  "pack_files sf (xs @ ys) out_f entries =
     (case pack_files sf xs out_f entries of
        Inl x \<Rightarrow> Inl x
      | Inr (out1, entries1) \<Rightarrow> pack_files sf ys out1 entries1)"
proof (induction xs arbitrary: out_f entries)
  case Nil
  show ?case by simp
next
  case (Cons x xs)
  show ?case
    unfolding append_Cons pack_files_Cons_cases [of sf x]
    by (simp add: Cons.IH split: sum.splits)
qed

lemma pack_files_entries:
  assumes "pack_files sf fs out_f entries = Inr (out', entries')"
  shows "(\<forall>f \<in> set fs. st_size f \<le> 4294967295)
       \<and> (\<exists>new. entries' = entries @ new \<and> length new = length fs
              \<and> (\<forall>r \<in> set new. fst r \<le> 4294967295 \<and> snd r \<le> 4294967295))"
  using assms
proof (induction fs arbitrary: out_f entries)
  case Nil
  then show ?case by simp
next
  case (Cons src rest)
  from Cons.prems obtain out2 e where
    s: "\<not> st_size src > 4294967295" and
    b: "fst e \<le> 4294967295 \<and> snd e \<le> 4294967295" and
    r: "pack_files sf rest out2 (entries @ [e]) = Inr (out', entries')"
    unfolding pack_files_Cons_cases [of sf src]
    by (fastforce simp: not_less split: if_splits sum.splits)
  from Cons.IH [OF r] obtain new where
    f: "\<forall>f \<in> set rest. st_size f \<le> 4294967295" and
    n: "entries' = (entries @ [e]) @ new" "length new = length rest"
       "\<forall>r \<in> set new. fst r \<le> 4294967295 \<and> snd r \<le> 4294967295"
    by blast
  have "entries' = entries @ (e # new) \<and> length (e # new) = length (src # rest)
        \<and> (\<forall>r \<in> set (e # new). fst r \<le> 4294967295 \<and> snd r \<le> 4294967295)"
    using n b by simp
  then show ?case
    using s f by (intro conjI exI [of _ "e # new"]) auto
qed

lemma pack_files_errors:
  assumes "pack_files sf fs out_f entries = Inl (e, out')"
  shows "(\<exists>f \<in> set fs. e = FileTooLarge (src_path f) \<and> st_size f > 4294967295)
       \<or> e = ArchiveExceeds
       \<or> (e = StructError \<and> (\<exists>f \<in> set fs. st_size f < 0))"
  using assms
proof (induction fs arbitrary: out_f entries)
  case Nil
  then show ?case by simp
next
  case (Cons src rest)
  show ?case
  proof (cases "st_size src > 4294967295")
    case True
    with Cons.prems show ?thesis by simp
  next
    case False
    show ?thesis
    proof (cases "S3V0_pack S3V_MAGIC 0x20 (st_size src) (replicate 20 0)")
      case (Inl x)
      with Cons.prems False S3V0_pack_Inl [OF Inl] show ?thesis
        unfolding pack_files_Cons_cases [of sf src] by auto
    next
      case (Inr hdr)
      with Cons.prems False show ?thesis
        unfolding pack_files_Cons_cases [of sf src]
        using Cons.IH by (auto split: if_splits)
    qed
  qed
qed

lemma pack_start:
  "out_write (out_write \<lparr>data = [], pos = 0\<rparr> (S3P_MAGIC @ le32 n)) (replicate (ENTRY_size * n) 0)
     = \<lparr>data = S3P_MAGIC @ le32 n @ replicate (8 * n) 0, pos = 8 + 8 * n\<rparr>"
  by (simp add: out_write_def ENTRY_size_def)

lemma HEADER_pack_count:
  "HEADER_pack S3P_MAGIC (int n) =
     (if n > 4294967295 then Inl StructError else Inr (S3P_MAGIC @ le32 n))"
  by (simp add: HEADER_pack_def pack_I_def u32_max_def pack_s_def)

lemma pack_unfold_files:
  assumes "length fs \<le> 4294967295"
  shows "pack sf fs =
     (case pack_files sf fs
             (out_write (out_write \<lparr>data = [], pos = 0\<rparr> (S3P_MAGIC @ le32 (length fs)))
                (replicate (ENTRY_size * length fs) 0)) [] of
        Inl (e, out_e) \<Rightarrow> PackFailed e (data out_e)
      | Inr (out3, entries) \<Rightarrow>
          (case pack_table (replicate (ENTRY_size * length fs) 0) 0 entries of
             Inl e \<Rightarrow> PackFailed e (data (out_seek (out_write out3 (le32 305419896)) HEADER_size))
           | Inr table' \<Rightarrow>
               Packed (data (out_write (out_seek (out_write out3 (le32 305419896)) HEADER_size)
                               table'))))"
proof -
  have m: "pack_I END_MARKER = Inr (le32 305419896)"
    by (simp add: END_MARKER_def pack_I_ok)
  show ?thesis
    using assms by (simp add: pack_def HEADER_pack_count Let_def m split: sum.splits prod.splits)
qed

lemma pack_Packed_files:
  assumes "pack sf fs = Packed archive"
  shows "\<exists>out3 entries.
           pack_files sf fs
             (out_write (out_write \<lparr>data = [], pos = 0\<rparr> (S3P_MAGIC @ le32 (length fs)))
                (replicate (ENTRY_size * length fs) 0)) [] = Inr (out3, entries)"
proof -
  have n: "length fs \<le> 4294967295"
    using pack_Packed [OF assms] by simp
  show ?thesis
    using assms unfolding pack_unfold_files [OF n]
    by (auto split: sum.splits prod.splits)
qed

lemma pack_PackFailed:
  assumes "pack sf fs = PackFailed e partial"
  shows "(\<exists>f \<in> set fs. e = FileTooLarge (src_path f) \<and> st_size f > 4294967295)
       \<or> e = ArchiveExceeds
       \<or> (e = StructError \<and> (length fs > 4294967295 \<or> (\<exists>f \<in> set fs. st_size f < 0)))"
proof (cases "length fs > 4294967295")
  case True
  then have "pack sf fs = PackFailed StructError []"
    by (simp add: pack_def HEADER_pack_count)
  with assms True show ?thesis by simp
next
  case False
  then have n: "length fs \<le> 4294967295" by simp
  let ?out2 = "out_write (out_write \<lparr>data = [], pos = 0\<rparr> (S3P_MAGIC @ le32 (length fs)))
                (replicate (ENTRY_size * length fs) 0)"
  show ?thesis
  proof (cases "pack_files sf fs ?out2 []")
    case (Inl x)
    obtain e' out_e where x: "x = (e', out_e)" by (cases x)
    have "pack sf fs = PackFailed e' (data out_e)"
      unfolding pack_unfold_files [OF n] Inl x by simp
    with assms have "e = e'" by simp
    with pack_files_errors [OF Inl [unfolded x]] show ?thesis by blast
  next
    case (Inr y)
    obtain out3 entries where y: "y = (out3, entries)" by (cases y)
    have p2: "pos \<lparr>data = S3P_MAGIC @ le32 (length fs) @ replicate (8 * length fs) 0,
                   pos = 8 + 8 * length fs\<rparr>
              = length (data \<lparr>data = S3P_MAGIC @ le32 (length fs) @ replicate (8 * length fs) 0,
                   pos = 8 + 8 * length fs\<rparr>)"
      by simp
    note ok = pack_files_ok [OF p2 Inr [unfolded y pack_start]]
    have bf: "\<forall>f \<in> set fs. 0 \<le> st_size f \<and> st_size f \<le> 4294967295"
      using ok by simp
    have br: "\<forall>r \<in> set (layout (8 + 8 * length fs) fs). fst r \<le> 4294967295 \<and> snd r \<le> 4294967295"
      using ok by simp
    from pack_succeeds [OF n bf br, of sf] assms show ?thesis by simp
  qed
qed

lemma S3V0_pack_Inr_range:
  "S3V0_pack magic 0x20 sz unknown = Inr hdr \<Longrightarrow> 0 \<le> sz \<and> sz \<le> 4294967295"
  by (auto simp: S3V0_pack_def pack_I_def u32_max_def split: if_splits sum.splits)

lemma pack_archive_exceeds:
  assumes n: "length (pre @ g # rest) \<le> 4294967295"
    and pf: "pack_files sf pre
                (out_write (out_write \<lparr>data = [], pos = 0\<rparr>
                              (S3P_MAGIC @ le32 (length (pre @ g # rest))))
                   (replicate (ENTRY_size * length (pre @ g # rest)) 0)) [] = Inr (out1, entries1)"
    and h: "S3V0_pack S3V_MAGIC 0x20 (st_size g) (replicate 20 0) = Inr hdr"
    and ex: "out_tell out1 > 4294967295
             \<or> out_tell (out_write (out_write out1 hdr)
                            (copy_file_fast sf (content g) (st_size g)))
                 - out_tell out1 > 4294967295"
  shows "pack sf (pre @ g # rest)
       = PackFailed ArchiveExceeds
           (data (out_write (out_write out1 hdr) (copy_file_fast sf (content g) (st_size g))))"
proof -
  have r: "\<not> st_size g > 4294967295"
    using S3V0_pack_Inr_range [OF h] by simp
  have "pack_files sf (pre @ g # rest)
          (out_write (out_write \<lparr>data = [], pos = 0\<rparr>
                              (S3P_MAGIC @ le32 (length (pre @ g # rest))))
                   (replicate (ENTRY_size * length (pre @ g # rest)) 0)) []
        = Inl (ArchiveExceeds,
               out_write (out_write out1 hdr) (copy_file_fast sf (content g) (st_size g)))"
    unfolding pack_files_append pf pack_files_Cons_cases [of sf g]
    using r ex by (simp add: h)
  then show ?thesis
    unfolding pack_unfold_files [OF n] by simp
qed


text \<open>
  C7. Size limits of \<open>pack\<close>. (1) If some input file reports a size above \<open>0xFFFFFFFF\<close>,
  \<open>pack\<close> fails, with "File too large ...", "Archive exceeds 32-bit offset/length limits"
  or, for a list of more than \<open>0xFFFFFFFF\<close> files or a negative reported size,
  \<^verbatim>\<open>struct.error\<close>. (2) When \<open>pack\<close> does not fail, no input size and no offset or length
  the loop computed exceeds \<open>0xFFFFFFFF\<close>. (3) When the files before an oversized file
  \<open>f\<close> were packed, \<open>pack\<close> fails at \<open>f\<close> with "File too large ..." and the output file
  holds the header, the placeholder table and the records of the files before \<open>f\<close> only:
  no byte of the record of \<open>f\<close> was written. (4) When the files before a file \<open>g\<close> of
  admissible size were packed and the offset of the record of \<open>g\<close> (the position of the
  output file) or its length (the position after the copy minus that offset) exceeds
  \<open>0xFFFFFFFF\<close>, \<open>pack\<close> fails with "Archive exceeds 32-bit offset/length limits", the
  record of \<open>g\<close> being already written. (5) Whenever \<open>pack\<close> fails, the error is one of
  these two, or \<^verbatim>\<open>struct.error\<close> in the two cases named in (1).
\<close>

theorem pack_size_limit:
  "((\<exists>f \<in> set infiles. st_size f > 0xFFFFFFFF) \<longrightarrow>
      (\<exists>e partial. pack sf infiles = PackFailed e partial
         \<and> ((\<exists>f \<in> set infiles. e = FileTooLarge (src_path f) \<and> st_size f > 0xFFFFFFFF)
            \<or> e = ArchiveExceeds
            \<or> (e = StructError
                \<and> (length infiles > 0xFFFFFFFF \<or> (\<exists>f \<in> set infiles. st_size f < 0))))))
   \<and> (pack sf infiles = Packed archive \<longrightarrow>
        (\<forall>f \<in> set infiles. st_size f \<le> 0xFFFFFFFF)
        \<and> (\<exists>out3 entries.
              pack_files sf infiles
                (out_write (out_write \<lparr>data = [], pos = 0\<rparr> (S3P_MAGIC @ le32 (length infiles)))
                   (replicate (ENTRY_size * length infiles) 0)) [] = Inr (out3, entries)
              \<and> length entries = length infiles
              \<and> (\<forall>(offset, length') \<in> set entries.
                    offset \<le> 0xFFFFFFFF \<and> length' \<le> 0xFFFFFFFF)))
   \<and> (st_size f > 0xFFFFFFFF \<and> length (pre @ f # rest) \<le> 0xFFFFFFFF
        \<and> pack_files sf pre
                (out_write (out_write \<lparr>data = [], pos = 0\<rparr>
                              (S3P_MAGIC @ le32 (length (pre @ f # rest))))
                   (replicate (ENTRY_size * length (pre @ f # rest)) 0)) [] = Inr (out1, entries1)
        \<longrightarrow> pack sf (pre @ f # rest) = PackFailed (FileTooLarge (src_path f)) (data out1)
          \<and> data out1 = S3P_MAGIC @ le32 (length (pre @ f # rest))
                          @ replicate (8 * length (pre @ f # rest)) 0
                          @ concat (map record_bytes pre))
   \<and> (length (before @ g # after) \<le> 0xFFFFFFFF
        \<and> pack_files sf before
                (out_write (out_write \<lparr>data = [], pos = 0\<rparr>
                              (S3P_MAGIC @ le32 (length (before @ g # after))))
                   (replicate (ENTRY_size * length (before @ g # after)) 0)) []
              = Inr (out_b, entries_b)
        \<and> S3V0_pack S3V_MAGIC 0x20 (st_size g) (replicate 20 0) = Inr hdr
        \<and> (out_tell out_b > 0xFFFFFFFF
             \<or> out_tell (out_write (out_write out_b hdr)
                            (copy_file_fast sf (content g) (st_size g)))
                 - out_tell out_b > 0xFFFFFFFF)
        \<longrightarrow> pack sf (before @ g # after)
              = PackFailed ArchiveExceeds
                  (data (out_write (out_write out_b hdr)
                           (copy_file_fast sf (content g) (st_size g)))))
   \<and> (pack sf infiles = PackFailed err left \<longrightarrow>
        (\<exists>f \<in> set infiles. err = FileTooLarge (src_path f) \<and> st_size f > 0xFFFFFFFF)
        \<or> err = ArchiveExceeds
        \<or> (err = StructError
            \<and> (length infiles > 0xFFFFFFFF \<or> (\<exists>f \<in> set infiles. st_size f < 0))))"
proof (intro conjI impI)
  assume big: "\<exists>f \<in> set infiles. st_size f > 0xFFFFFFFF"
  have "pack sf infiles \<noteq> Packed a" for a
  proof
    assume "pack sf infiles = Packed a"
    from pack_Packed [OF this] big show False by fastforce
  qed
  then obtain e partial where p: "pack sf infiles = PackFailed e partial"
    by (cases "pack sf infiles") auto
  from pack_PackFailed [OF p] p
  show "\<exists>e partial. pack sf infiles = PackFailed e partial
         \<and> ((\<exists>f \<in> set infiles. e = FileTooLarge (src_path f) \<and> st_size f > 0xFFFFFFFF)
            \<or> e = ArchiveExceeds
            \<or> (e = StructError
                \<and> (length infiles > 0xFFFFFFFF \<or> (\<exists>f \<in> set infiles. st_size f < 0))))"
    by blast
next
  assume p: "pack sf infiles = Packed archive"
  from pack_Packed [OF p] show "\<forall>f \<in> set infiles. st_size f \<le> 0xFFFFFFFF"
    by simp
next
  assume p: "pack sf infiles = Packed archive"
  from pack_Packed_files [OF p] obtain out3 entries where
    f: "pack_files sf infiles
                (out_write (out_write \<lparr>data = [], pos = 0\<rparr> (S3P_MAGIC @ le32 (length infiles)))
                   (replicate (ENTRY_size * length infiles) 0)) [] = Inr (out3, entries)"
    by blast
  from pack_files_entries [OF f]
  have "length entries = length infiles
        \<and> (\<forall>(offset, length') \<in> set entries. offset \<le> 0xFFFFFFFF \<and> length' \<le> 0xFFFFFFFF)"
    by auto
  with f show "\<exists>out3 entries.
              pack_files sf infiles
                (out_write (out_write \<lparr>data = [], pos = 0\<rparr> (S3P_MAGIC @ le32 (length infiles)))
                   (replicate (ENTRY_size * length infiles) 0)) [] = Inr (out3, entries)
              \<and> length entries = length infiles
              \<and> (\<forall>(offset, length') \<in> set entries.
                    offset \<le> 0xFFFFFFFF \<and> length' \<le> 0xFFFFFFFF)"
    by blast
next
  let ?n = "length (pre @ f # rest)"
  let ?out2 = "out_write (out_write \<lparr>data = [], pos = 0\<rparr> (S3P_MAGIC @ le32 ?n))
                   (replicate (ENTRY_size * ?n) 0)"
  assume a: "st_size f > 0xFFFFFFFF \<and> ?n \<le> 0xFFFFFFFF
        \<and> pack_files sf pre ?out2 [] = Inr (out1, entries1)"
  then have n: "?n \<le> 4294967295" and pf: "pack_files sf pre ?out2 [] = Inr (out1, entries1)"
    and big: "st_size f > 4294967295"
    by simp_all
  have "pack_files sf (pre @ f # rest) ?out2 [] = Inl (FileTooLarge (src_path f), out1)"
    unfolding pack_files_append pf using big by simp
  then show "pack sf (pre @ f # rest) = PackFailed (FileTooLarge (src_path f)) (data out1)"
    unfolding pack_unfold_files [OF n] by simp
  have p2: "pos \<lparr>data = S3P_MAGIC @ le32 ?n @ replicate (8 * ?n) 0, pos = 8 + 8 * ?n\<rparr>
              = length (data \<lparr>data = S3P_MAGIC @ le32 ?n @ replicate (8 * ?n) 0,
                   pos = 8 + 8 * ?n\<rparr>)"
    by simp
  from pack_files_ok [OF p2 pf [unfolded pack_start]]
  show "data out1 = S3P_MAGIC @ le32 ?n @ replicate (8 * ?n) 0 @ concat (map record_bytes pre)"
    by simp
next
  assume a: "length (before @ g # after) \<le> 0xFFFFFFFF
        \<and> pack_files sf before
                (out_write (out_write \<lparr>data = [], pos = 0\<rparr>
                              (S3P_MAGIC @ le32 (length (before @ g # after))))
                   (replicate (ENTRY_size * length (before @ g # after)) 0)) []
              = Inr (out_b, entries_b)
        \<and> S3V0_pack S3V_MAGIC 0x20 (st_size g) (replicate 20 0) = Inr hdr
        \<and> (out_tell out_b > 0xFFFFFFFF
             \<or> out_tell (out_write (out_write out_b hdr)
                            (copy_file_fast sf (content g) (st_size g)))
                 - out_tell out_b > 0xFFFFFFFF)"
  then have n: "length (before @ g # after) \<le> 4294967295"
    and pf: "pack_files sf before
                (out_write (out_write \<lparr>data = [], pos = 0\<rparr>
                              (S3P_MAGIC @ le32 (length (before @ g # after))))
                   (replicate (ENTRY_size * length (before @ g # after)) 0)) []
              = Inr (out_b, entries_b)"
    and h: "S3V0_pack S3V_MAGIC 0x20 (st_size g) (replicate 20 0) = Inr hdr"
    and ex: "out_tell out_b > 4294967295
             \<or> out_tell (out_write (out_write out_b hdr)
                            (copy_file_fast sf (content g) (st_size g)))
                 - out_tell out_b > 4294967295"
    by simp_all
  show "pack sf (before @ g # after)
              = PackFailed ArchiveExceeds
                  (data (out_write (out_write out_b hdr)
                           (copy_file_fast sf (content g) (st_size g))))"
    using n pf h ex by (rule pack_archive_exceeds)
next
  assume "pack sf infiles = PackFailed err left"
  from pack_PackFailed [OF this]
  show "(\<exists>f \<in> set infiles. err = FileTooLarge (src_path f) \<and> st_size f > 0xFFFFFFFF)
        \<or> err = ArchiveExceeds
        \<or> (err = StructError
            \<and> (length infiles > 0xFFFFFFFF \<or> (\<exists>f \<in> set infiles. st_size f < 0)))"
    by simp
qed

theorem pack_size_limit_witness:
  "(\<exists>f \<in> set [a_bin, big_bin]. st_size f > 0xFFFFFFFF)
   \<and> pack True [a_bin, big_bin] = PackFailed (FileTooLarge ''big.bin'') partial_s3p
   \<and> pack True [a_bin, b_bin] = Packed out_s3p
   \<and> st_size a_bin \<le> 0xFFFFFFFF \<and> st_size b_bin \<le> 0xFFFFFFFF
   \<and> st_size huge_bin = int (length (content huge_bin))
   \<and> st_size huge_bin \<le> 0xFFFFFFFF
   \<and> pack True [huge_bin]
       = PackFailed ArchiveExceeds
           (S3P_MAGIC @ le32 1 @ replicate 8 0
            @ S3V_MAGIC @ le32 32 @ le32 4294967295 @ replicate 20 0
            @ replicate 4294967295 0)"
proof -
  let ?out2 = "out_write (out_write \<lparr>data = [], pos = 0\<rparr>
                              (S3P_MAGIC @ le32 (length ([a_bin] @ big_bin # []))))
                   (replicate (ENTRY_size * length ([a_bin] @ big_bin # [])) 0)"
  let ?out1 = "\<lparr>data = partial_s3p, pos = 59\<rparr>"
  have big: "st_size big_bin > 0xFFFFFFFF"
    by (simp add: big_bin_def)
  have l: "length ([a_bin] @ big_bin # []) = 2"
    by simp
  have s: "?out2 = \<lparr>data = S3P_MAGIC @ le32 2 @ replicate 16 0, pos = 24\<rparr>"
    unfolding l pack_start by simp
  have p: "pos \<lparr>data = S3P_MAGIC @ le32 2 @ replicate 16 0, pos = 24\<rparr>
             = length (data \<lparr>data = S3P_MAGIC @ le32 2 @ replicate 16 0, pos = 24\<rparr>)"
    by simp
  have pf: "pack_files True [a_bin] ?out2 [] = Inr (?out1, [(24, 35)])"
    unfolding s
    by (subst pack_files_succeeds [OF p])
       (simp_all add: a_bin_def copied_def record_bytes_def partial_s3p_def S3P_MAGIC_def
          S3V_MAGIC_def le32_def)
  have ab: "pack True [a_bin, b_bin] = Packed out_s3p"
    by (rule pack_a_b)
  have n: "length ([a_bin] @ big_bin # []) \<le> 0xFFFFFFFF"
    by simp
  let ?start = "out_write (out_write \<lparr>data = [], pos = 0\<rparr>
                              (S3P_MAGIC @ le32 (length ([] @ huge_bin # []))))
                   (replicate (ENTRY_size * length ([] @ huge_bin # [])) 0)"
  let ?out_b = "\<lparr>data = S3P_MAGIC @ le32 1 @ replicate 8 0, pos = 16\<rparr>"
  let ?hdr = "S3V_MAGIC @ le32 32 @ le32 4294967295 @ replicate 20 0"
  have hs: "st_size huge_bin = 4294967295" "content huge_bin = replicate 4294967295 0"
    by (simp_all add: huge_bin_def)
  have hl: "st_size huge_bin = int (length (content huge_bin))"
    unfolding hs by simp
  have st: "?start = ?out_b"
  proof -
    have "length ([] @ huge_bin # []) = 1" by simp
    then show ?thesis unfolding pack_start by simp
  qed
  have pe: "pack_files True [] ?start [] = Inr (?out_b, [])"
    unfolding st by simp
  have h: "S3V0_pack S3V_MAGIC 0x20 (st_size huge_bin) (replicate 20 0) = Inr ?hdr"
    unfolding hs using S3V0_pack_ok [of 4294967295] by simp
  have cp: "copy_file_fast True (content huge_bin) (st_size huge_bin) = replicate 4294967295 0"
    unfolding hs by (simp add: copy_file_fast_take)
  have w1: "out_write ?out_b ?hdr
              = \<lparr>data = (S3P_MAGIC @ le32 1 @ replicate 8 0) @ ?hdr, pos = 48\<rparr>"
    by (simp add: out_write_append)
  have w2: "out_write (out_write ?out_b ?hdr) (replicate 4294967295 0)
              = \<lparr>data = ((S3P_MAGIC @ le32 1 @ replicate 8 0) @ ?hdr) @ replicate 4294967295 0,
                 pos = 4294967343\<rparr>"
    unfolding w1 by (simp add: out_write_append)
  have ov: "out_tell ?out_b > 0xFFFFFFFF
            \<or> out_tell (out_write (out_write ?out_b ?hdr)
                           (copy_file_fast True (content huge_bin) (st_size huge_bin)))
                - out_tell ?out_b > 0xFFFFFFFF"
    unfolding cp w2 by (simp add: out_tell_def)
  have hn: "length ([] @ huge_bin # []) \<le> 0xFFFFFFFF"
    by simp
  have huge: "pack True [huge_bin]
       = PackFailed ArchiveExceeds
           (S3P_MAGIC @ le32 1 @ replicate 8 0
            @ S3V_MAGIC @ le32 32 @ le32 4294967295 @ replicate 20 0
            @ replicate 4294967295 0)"
    using pack_size_limit [of "[a_bin, big_bin]" True out_s3p big_bin "[a_bin]" "[]" ?out1
        "[(24, 35)]" "[]" huge_bin "[]" ?out_b "[]" ?hdr StructError "[]"]
      hn pe h ov
    unfolding cp w2 by simp
  have fail: "pack True [a_bin, big_bin] = PackFailed (FileTooLarge ''big.bin'') partial_s3p"
    using pack_size_limit [of "[a_bin, b_bin]" True out_s3p big_bin "[a_bin]" "[]" ?out1
        "[(24, 35)]" "[]" huge_bin "[]" ?out_b "[]" ?hdr StructError "[]"]
      big n pf
    by (simp add: big_bin_def)
  show ?thesis
    using fail huge ab big hl hs by (simp add: a_bin_def b_bin_def)
qed

section \<open>Inputs on which the round trip fails\<close>




end
